theory Spec2Isabelle
  imports Complex_Main "HOL-Library.Word" "HOL-Library.Sublist"
begin

section \<open>Platform strings\<close>

text \<open>
  A JavaScript string is modelled by the HOL string of the bytes of its UTF-8 encoding: a
  character of the ASCII range is one byte, \<^verbatim>\<open>U+00A0\<close> is the two bytes \<^verbatim>\<open>C2 A0\<close>.  The
  functions of this section are the built-in string operations that the sources call:
  \<^verbatim>\<open>String.prototype.split\<close> with a one-character separator, \<^verbatim>\<open>startsWith\<close>, \<^verbatim>\<open>trim\<close> and
  \<^verbatim>\<open>Array.prototype.includes\<close>.
\<close>

fun split_on :: "char \<Rightarrow> string \<Rightarrow> string list" where
  "split_on sep [] = [[]]"
| "split_on sep (c # cs) =
     (if c = sep then [] # split_on sep cs
      else (case split_on sep cs of
              [] \<Rightarrow> [[c]]
            | p # ps \<Rightarrow> (c # p) # ps))"

fun startsWith :: "string \<Rightarrow> string \<Rightarrow> bool" where
  "startsWith s [] = True"
| "startsWith [] (p # ps) = False"
| "startsWith (c # cs) (p # ps) = (c = p \<and> startsWith cs ps)"

text \<open>The UTF-8 bytes of a code point (of a lone surrogate too).\<close>

definition utf8 :: "nat \<Rightarrow> string" where
  "utf8 n =
     (if n < 128 then [char_of n]
      else if n < 2048 then [char_of (192 + n div 64), char_of (128 + n mod 64)]
      else if n < 65536
        then [char_of (224 + n div 4096), char_of (128 + n div 64 mod 64), char_of (128 + n mod 64)]
      else [char_of (240 + n div 262144), char_of (128 + n div 4096 mod 64),
            char_of (128 + n div 64 mod 64), char_of (128 + n mod 64)])"

text \<open>
  \<^verbatim>\<open>String.prototype.trim\<close> removes the white space and the line terminators of ECMAScript
  from both ends: tab, line feed, vertical tab, form feed, carriage return, space, the
  no-break space \<^verbatim>\<open>U+00A0\<close>, \<^verbatim>\<open>U+1680\<close>, \<^verbatim>\<open>U+2000\<close> to \<^verbatim>\<open>U+200A\<close>, the line and
  paragraph separators \<^verbatim>\<open>U+2028\<close> and \<^verbatim>\<open>U+2029\<close>, \<^verbatim>\<open>U+202F\<close>, \<^verbatim>\<open>U+205F\<close>, \<^verbatim>\<open>U+3000\<close> and
  the byte order mark \<^verbatim>\<open>U+FEFF\<close>.  Such a character takes one, two or three bytes.
\<close>

definition white_space_code_points :: "nat list" where
  "white_space_code_points =
     [0x09, 0x0A, 0x0B, 0x0C, 0x0D, 0x20, 0xA0, 0x1680] @ [0x2000 ..< 0x200B]
     @ [0x2028, 0x2029, 0x202F, 0x205F, 0x3000, 0xFEFF]"

definition is_white_space :: "string \<Rightarrow> bool" where
  "is_white_space w = (w \<in> set (map utf8 white_space_code_points))"

text \<open>
  The number of bytes of the white-space character that a string begins with, and of the
  one it ends with; 0 when there is none.
\<close>

fun leading_white_space :: "string \<Rightarrow> nat" where
  "leading_white_space [] = 0"
| "leading_white_space (c # cs) =
     (if is_white_space (take 1 (c # cs)) then 1
      else if is_white_space (take 2 (c # cs)) then 2
      else if is_white_space (take 3 (c # cs)) then 3
      else 0)"

fun trailing_white_space :: "string \<Rightarrow> nat" where
  "trailing_white_space s =
     (if s = [] then 0
      else if is_white_space (drop (length s - 1) s) then 1
      else if is_white_space (drop (length s - 2) s) then 2
      else if is_white_space (drop (length s - 3) s) then 3
      else 0)"

declare trailing_white_space.simps [simp del]

function trimStart :: "string \<Rightarrow> string" where
  "trimStart s =
     (if leading_white_space s = 0 then s else trimStart (drop (leading_white_space s) s))"
  by pat_completeness auto
termination
proof (relation "measure length")
  fix s :: string
  assume "leading_white_space s \<noteq> 0"
  then have "s \<noteq> []" by (cases s) simp_all
  with \<open>leading_white_space s \<noteq> 0\<close>
  show "(drop (leading_white_space s) s, s) \<in> measure length" by simp
qed simp

declare trimStart.simps [simp del]

function trimEnd :: "string \<Rightarrow> string" where
  "trimEnd s =
     (if trailing_white_space s = 0 then s
      else trimEnd (take (length s - trailing_white_space s) s))"
  by pat_completeness auto
termination
  by (relation "measure length") (auto simp: trailing_white_space.simps split: if_splits)

declare trimEnd.simps [simp del]

definition trim :: "string \<Rightarrow> string" where
  "trim s = trimEnd (trimStart s)"

definition includes_js :: "'a list \<Rightarrow> 'a \<Rightarrow> bool" where
  "includes_js xs x = (x \<in> set xs)"

section \<open>Canvas export: quality presets and canvas dimensions\<close>

text \<open>
  \<^verbatim>\<open>AspectRatio\<close> and \<^verbatim>\<open>ExportQuality\<close> are string-literal union types; their members are
  the entries of \<^verbatim>\<open>ASPECT_RATIOS\<close> and \<^verbatim>\<open>QUALITIES\<close> in the views.
\<close>

datatype AspectRatio = R1_1 | R16_9 | R9_16 | R4_3 | R3_4

fun aspect_literal :: "AspectRatio \<Rightarrow> string" where
  "aspect_literal R1_1 = ''1:1''"
| "aspect_literal R16_9 = ''16:9''"
| "aspect_literal R9_16 = ''9:16''"
| "aspect_literal R4_3 = ''4:3''"
| "aspect_literal R3_4 = ''3:4''"

definition ASPECT_RATIOS :: "AspectRatio list" where
  "ASPECT_RATIOS = [R1_1, R16_9, R9_16, R4_3, R3_4]"

datatype ExportQuality = Standard | High | Maximum

definition QUALITIES :: "ExportQuality list" where
  "QUALITIES = [Standard, High, Maximum]"

record quality_preset =
  resolution :: rat
  jpegQuality :: rat

fun QUALITY_PRESETS :: "ExportQuality \<Rightarrow> quality_preset" where
  "QUALITY_PRESETS Standard = \<lparr>resolution = 1024, jpegQuality = 85 / 100\<rparr>"
| "QUALITY_PRESETS High = \<lparr>resolution = 1500, jpegQuality = 92 / 100\<rparr>"
| "QUALITY_PRESETS Maximum = \<lparr>resolution = 1500, jpegQuality = 1\<rparr>"

text \<open>
  \<^verbatim>\<open>Number\<close> applied to a string of decimal digits.  The sources only apply it to the two
  pieces of an aspect-ratio literal.
\<close>

definition digit_value :: "char \<Rightarrow> nat" where
  "digit_value c = of_char c - 48"

definition Number_digits :: "string \<Rightarrow> rat" where
  "Number_digits s = of_nat (foldl (\<lambda>n c. 10 * n + digit_value c) 0 s)"

text \<open>
  \<^verbatim>\<open>Math.round\<close>: the integer nearest to the argument, a tie going to the larger one.  Numbers
  are exact rationals here; every quotient that the presets and the five ratios produce has
  denominator 1, 4 or 16 and is below 2048, hence it is exactly representable as a double.
\<close>

definition Math_round :: "rat \<Rightarrow> rat" where
  "Math_round x = of_int \<lfloor>x + 1 / 2\<rfloor>"

record dimensions =
  width :: rat
  height :: rat

definition getCanvasDimensions :: "rat \<Rightarrow> AspectRatio \<Rightarrow> dimensions" where
  "getCanvasDimensions res aspectRatio =
     (case map Number_digits (split_on CHR '':'' (aspect_literal aspectRatio)) of
        w # h # _ \<Rightarrow>
          if w \<ge> h then \<lparr>width = res, height = Math_round (res * h / w)\<rparr>
          else \<lparr>width = Math_round (res * w / h), height = res\<rparr>
      | _ \<Rightarrow> \<lparr>width = res, height = res\<rparr>)"

text \<open>
  The rounding rule as the specification words it (round half up), and the two numbers of
  each ratio as the specification reads them, for comparison with the code.
\<close>

definition round_half_up :: "rat \<Rightarrow> rat" where
  "round_half_up x = (if x - of_int \<lfloor>x\<rfloor> < 1 / 2 then of_int \<lfloor>x\<rfloor> else of_int \<lfloor>x\<rfloor> + 1)"

fun ratio_w :: "AspectRatio \<Rightarrow> rat" where
  "ratio_w R1_1 = 1" | "ratio_w R16_9 = 16" | "ratio_w R9_16 = 9"
| "ratio_w R4_3 = 4" | "ratio_w R3_4 = 3"

fun ratio_h :: "AspectRatio \<Rightarrow> rat" where
  "ratio_h R1_1 = 1" | "ratio_h R16_9 = 9" | "ratio_h R9_16 = 16"
| "ratio_h R4_3 = 3" | "ratio_h R3_4 = 4"

definition spec_dimensions :: "rat \<Rightarrow> AspectRatio \<Rightarrow> dimensions" where
  "spec_dimensions res a =
     (if ratio_w a \<ge> ratio_h a
      then \<lparr>width = res, height = round_half_up (res * ratio_h a / ratio_w a)\<rparr>
      else \<lparr>width = round_half_up (res * ratio_w a / ratio_h a), height = res\<rparr>)"

section \<open>Failures, effects and the remote service\<close>

text \<open>
  A thrown or rejected value is either an instance of \<^verbatim>\<open>Error\<close> (with its message; the
  platform's \<^verbatim>\<open>TypeError\<close>, \<^verbatim>\<open>SyntaxError\<close> and \<^verbatim>\<open>DOMException\<close> are such
  instances) or some other value, which \<^verbatim>\<open>e instanceof Error\<close> rejects (the
  \<^verbatim>\<open>ProgressEvent\<close> of a failed file read).
\<close>

datatype js_error = Error string | Thrown string

fun instanceof_Error :: "js_error \<Rightarrow> bool" where
  "instanceof_Error (Error m) = True"
| "instanceof_Error (Thrown v) = False"

text \<open>
  Reading a property of \<^verbatim>\<open>undefined\<close> throws a \<^verbatim>\<open>TypeError\<close>.  Its message is the
  engine's; the wording here is that of V8 (Chrome, Node.js).
\<close>

definition cannot_read_message :: "string \<Rightarrow> string" where
  "cannot_read_message property =
     ''Cannot read properties of undefined (reading '' @ [CHR 0x27] @ property @ [CHR 0x27] @ '')''"

record File =
  file_name :: string
  file_type :: string
  file_bytes :: "8 word list"
  file_readable :: bool

text \<open>
  The objects of the SDK, with the fields that the sources read or write.  Every field of
  such an object is optional: a field that is missing (\<^verbatim>\<open>undefined\<close>) is \<open>None\<close>.
\<close>

record blob =
  data :: "string option"
  mimeType :: "string option"

text \<open>A part of a request or of a response: an object that may carry inline data, a text, or both.\<close>

record part =
  inlineData :: "blob option"
  part_text :: "string option"

datatype modality = IMAGE

datatype gen_config =
  ResponseModalities "modality list"
| ResponseSchema string "(string \<times> string) list" "string list"

record request =
  req_model :: string
  req_parts :: "part list"
  req_config :: gen_config

record gen_content =
  parts :: "part list option"

record gen_candidate =
  content :: "gen_content option"

record gen_response =
  candidates :: "gen_candidate list option"
  response_text :: "string option"

record images_request =
  img_model :: string
  img_prompt :: string
  numberOfImages :: nat
  outputMimeType :: string
  img_aspectRatio :: AspectRatio
  negativePrompt :: "string option"
  seed :: "int option"

record image_data =
  imageBytes :: "string option"

record generated_image =
  gen_image :: "image_data option"

record images_response =
  generatedImages :: "generated_image list option"

text \<open>
  The remote service is a parameter: what \<^verbatim>\<open>ai.models.generateContent\<close> and
  \<^verbatim>\<open>ai.models.generateImages\<close> answer to a request, a failure or a response.
\<close>

record service =
  generateContent :: "request \<Rightarrow> js_error + gen_response"
  generateImages :: "images_request \<Rightarrow> js_error + images_response"

text \<open>
  An asynchronous computation is its outcome together with the effects it performed, in
  order: the file reads it started and the requests it sent.
\<close>

datatype event =
  ReadAsDataURL File
| GenerateContent request
| GenerateImages images_request

type_synonym 'a io = "(js_error + 'a) \<times> event list"

definition io_return :: "'a \<Rightarrow> 'a io" where
  "io_return x = (Inr x, [])"

definition io_throw :: "js_error \<Rightarrow> 'a io" where
  "io_throw e = (Inl e, [])"

definition io_bind :: "'a io \<Rightarrow> ('a \<Rightarrow> 'b io) \<Rightarrow> 'b io" where
  "io_bind m f =
     (case m of
        (Inl e, t) \<Rightarrow> (Inl e, t)
      | (Inr x, t) \<Rightarrow> (case f x of (r, t') \<Rightarrow> (r, t @ t')))"

definition io_catch :: "'a io \<Rightarrow> (js_error \<Rightarrow> 'a io) \<Rightarrow> 'a io" where
  "io_catch m h =
     (case m of
        (Inl e, t) \<Rightarrow> (case h e of (r, t') \<Rightarrow> (r, t @ t'))
      | (Inr x, t) \<Rightarrow> (Inr x, t))"

text \<open>
  \<^verbatim>\<open>Promise.all(xs.map(f))\<close>: every computation is started; the outcome is the list of
  results in input order, or the failure of the first computation that fails.
\<close>

fun Promise_all :: "'a io list \<Rightarrow> 'a list io" where
  "Promise_all [] = (Inr [], [])"
| "Promise_all (m # ms) =
     (case Promise_all ms of
        (rs, ts) \<Rightarrow>
          ((case fst m of
              Inl e \<Rightarrow> Inl e
            | Inr x \<Rightarrow> (case rs of Inl e \<Rightarrow> Inl e | Inr xs \<Rightarrow> Inr (x # xs))),
           snd m @ ts))"

definition call_generateContent :: "service \<Rightarrow> request \<Rightarrow> gen_response io" where
  "call_generateContent ai req = (generateContent ai req, [GenerateContent req])"

definition call_generateImages :: "service \<Rightarrow> images_request \<Rightarrow> images_response io" where
  "call_generateImages ai req = (generateImages ai req, [GenerateImages req])"

section \<open>File conversion\<close>

text \<open>
  The platform's base64 alphabet and encoder, as \<^verbatim>\<open>FileReader.readAsDataURL\<close> applies
  them to the bytes of a file: three bytes give four characters, and a last group of one
  or two bytes is padded with \<^verbatim>\<open>=\<close>.
\<close>

definition b64_alphabet :: string where
  "b64_alphabet = ''ABCDEFGHIJKLMNOPQRSTUVWXYZabcdefghijklmnopqrstuvwxyz0123456789+/''"

definition b64_char :: "nat \<Rightarrow> char" where
  "b64_char n = b64_alphabet ! (n mod 64)"

fun b64_encode :: "8 word list \<Rightarrow> string" where
  "b64_encode [] = []"
| "b64_encode [a] =
     (let n = unat a * 65536
      in [b64_char (n div 262144), b64_char (n div 4096), CHR ''='', CHR ''=''])"
| "b64_encode [a, b] =
     (let n = unat a * 65536 + unat b * 256
      in [b64_char (n div 262144), b64_char (n div 4096), b64_char (n div 64), CHR ''=''])"
| "b64_encode (a # b # c # rest) =
     (let n = unat a * 65536 + unat b * 256 + unat c
      in [b64_char (n div 262144), b64_char (n div 4096), b64_char (n div 64), b64_char n]
         @ b64_encode rest)"

text \<open>
  \<^verbatim>\<open>readAsDataURL\<close> answers \<^verbatim>\<open>data:<type>;base64,<payload>\<close>, with the media type of the
  file as it stands, and \<^verbatim>\<open>application/octet-stream\<close> for a file of unknown type.
\<close>

definition readAsDataURL :: "File \<Rightarrow> string" where
  "readAsDataURL f =
     ''data:'' @ (if file_type f = [] then ''application/octet-stream'' else file_type f)
     @ '';base64,'' @ b64_encode (file_bytes f)"

text \<open>
  \<^verbatim>\<open>fileToBase64\<close>: the promise rejects with the reader's error event when the read fails;
  otherwise it resolves to \<^verbatim>\<open>result.split(',')[1]\<close>.  A data URL always holds a comma, so
  the index exists (lemma \<open>split_dataURL\<close> below); the last case is never taken.
\<close>

definition fileToBase64 :: "File \<Rightarrow> string io" where
  "fileToBase64 f =
     (if file_readable f
      then (case split_on CHR '','' (readAsDataURL f) of
              _ # piece # _ \<Rightarrow> (Inr piece, [ReadAsDataURL f])
            | _ \<Rightarrow> (Inr [], [ReadAsDataURL f]))
      else (Inl (Thrown ''ProgressEvent''), [ReadAsDataURL f]))"

definition getMimeType :: "File \<Rightarrow> string" where
  "getMimeType f = file_type f"

text \<open>
  The platform's \<^verbatim>\<open>atob\<close> (forgiving base64 decoding): ASCII whitespace is removed; when
  the length is a multiple of four, one or two closing \<^verbatim>\<open>=\<close> are removed; a length of one
  modulo four, or a character outside the alphabet, is an \<^verbatim>\<open>InvalidCharacterError\<close>;
  every four characters give three bytes, and two or three last characters give one or
  two bytes.  The result is a string of code units below 256, given here by their codes.
\<close>

definition b64_index :: "char \<Rightarrow> nat option" where
  "b64_index c =
     (if c \<in> set b64_alphabet then Some (length (takeWhile (\<lambda>d. d \<noteq> c) b64_alphabet))
      else None)"

definition is_ascii_whitespace :: "char \<Rightarrow> bool" where
  "is_ascii_whitespace c = (c \<in> set [CHR 0x09, CHR 0x0A, CHR 0x0C, CHR 0x0D, CHR 0x20])"

definition strip_padding :: "string \<Rightarrow> string" where
  "strip_padding s =
     (if length s mod 4 = 0 \<and> s \<noteq> [] \<and> last s = CHR ''=''
      then (if butlast s \<noteq> [] \<and> last (butlast s) = CHR ''=''
            then butlast (butlast s) else butlast s)
      else s)"

fun b64_decode_groups :: "nat list \<Rightarrow> nat list" where
  "b64_decode_groups (p # q # r # s # rest) =
     (let n = p * 262144 + q * 4096 + r * 64 + s
      in [n div 65536, n div 256 mod 256, n mod 256] @ b64_decode_groups rest)"
| "b64_decode_groups [p, q, r] =
     (let n = p * 262144 + q * 4096 + r * 64
      in [n div 65536, n div 256 mod 256])"
| "b64_decode_groups [p, q] =
     (let n = p * 262144 + q * 4096
      in [n div 65536])"
| "b64_decode_groups _ = []"

definition atob :: "string \<Rightarrow> js_error + nat list" where
  "atob s =
     (let t = strip_padding (filter (\<lambda>c. \<not> is_ascii_whitespace c) s)
      in if length t mod 4 = 1 \<or> (\<exists>c \<in> set t. b64_index c = None)
         then Inl (Error ''InvalidCharacterError'')
         else Inr (b64_decode_groups (map (\<lambda>c. the (b64_index c)) t)))"

text \<open>
  \<^verbatim>\<open>base64ToFile\<close>: the loop copies the code of every character into an array of numbers,
  which \<^verbatim>\<open>Uint8Array\<close> stores as bytes.
\<close>

definition base64ToFile :: "string \<Rightarrow> string \<Rightarrow> string \<Rightarrow> js_error + File" where
  "base64ToFile base64 filename mimeType' =
     (case atob base64 of
        Inl e \<Rightarrow> Inl e
      | Inr byteCharacters \<Rightarrow>
          (let byteNumbers = map (\<lambda>i. byteCharacters ! i) [0 ..< length byteCharacters];
               byteArray = map (\<lambda>n. (of_nat n :: 8 word)) byteNumbers
           in Inr \<lparr>file_name = filename, file_type = mimeType', file_bytes = byteArray,
                   file_readable = True\<rparr>))"

section \<open>Prompt assembly\<close>

text \<open>The text of every template literal of the service module, character for character.\<close>

fun getCanvasDescription :: "AspectRatio \<Rightarrow> string" where
  "getCanvasDescription R16_9 = ''a 1500 pixel wide landscape canvas with a 16:9 aspect ratio''"
| "getCanvasDescription R9_16 = ''a 1500 pixel tall portrait canvas with a 9:16 aspect ratio''"
| "getCanvasDescription R4_3 = ''a 1500 pixel wide landscape canvas with a 4:3 aspect ratio''"
| "getCanvasDescription R3_4 = ''a 1500 pixel tall portrait canvas with a 3:4 aspect ratio''"
| "getCanvasDescription R1_1 = ''a 1500x1500 pixel square canvas''"

definition composite_prompt_transparent :: "string \<Rightarrow> string" where
  \<open>composite_prompt_transparent canvasDescription =
      ''You are an expert photo editor. Take the provided product image and perfectly isolate the main product from its original background. The final output must be just the product on a transparent background. Ensure the edges are exceptionally clean with no halos or artifacts. The output canvas must be ''
      @ canvasDescription
      @ '', with the product perfectly centered while leaving approximately 10% padding on all sides.''\<close>

definition composite_prompt_scene :: "string \<Rightarrow> string \<Rightarrow> string" where
  \<open>composite_prompt_scene backgroundPrompt canvasDescription =
      ''You are a world-class product photographer and retoucher. Your task is to perform a professional product photo composite.
        1.  **Isolate Product:** Perfectly isolate the main product from the provided image. The mask must be flawless with clean edges and no halos.
        2.  **Create Background:** Generate a new, photorealistic background based on this description: "''
      @ backgroundPrompt
      @ ''". The background should be high-quality, whether it's a studio or lifestyle setting.
        3.  **Composite:** Place the isolated product onto the new background.
        4.  **Integrate:** This is critical. Analyze the lighting in the new background and realistically adjust the product's lighting, shadows, and highlights to match the scene perfectly. The product's color grading must be harmonized with the background.
        5.  **Add Shadow:** Create a natural, soft contact shadow underneath the product to ground it in the scene. The shadow must be consistent with the direction and softness of the main light source.
        6.  **Final Output:** The final image must be ''
      @ canvasDescription
      @ ''. Center the product within this canvas, leaving approximately 10% padding on all sides. Preserve all original texture and fine details of the product. The final result should look like a real, professionally shot photograph.''\<close>

definition style_prompt_intro :: "string" where
  \<open>style_prompt_intro =
      ''You are a world-class product photographer and retoucher specializing in professional photographic style transfer.
        You will be given one or more 'source style' images and one 'target product' image.
        Your task is to re-render the 'target product' image, meticulously applying stylistic elements from the 'source style' images while adhering to strict preservation rules.

        **Primary Directive: The target product's physical form, shape, dimensions, texture, patterns, and structural details MUST be preserved exactly.** You are only to copy stylistic cues like color, lighting, shadows, reflections, and surface material properties from the source. The target product must remain recognizable and true to its original form.

        The source images are provided first, followed by the target product image.
        ''\<close>

definition style_prompt_additional :: "string \<Rightarrow> string" where
  \<open>style_prompt_additional additionalPrompt =
      ''
            **Additional User Instructions:**
            -   Incorporate the following specific instruction: "''
      @ additionalPrompt
      @ ''". This instruction should modify or override the style transfer where applicable, especially concerning the background or overall mood.
            ''\<close>

definition style_prompt_transparent_restyle :: "string" where
  \<open>style_prompt_transparent_restyle =
      ''
                **Goal: Isolate and re-style the target product on a transparent background.**
                1.  Analyze the lighting, texture rendering, and overall aesthetic from the source images.
                2.  Apply this style to the target product, following the Primary Directive above.
                3.  Isolate the re-styled product perfectly from any background.
                4.  The final output must be ONLY the product on a transparent background. Ensure edges are flawless with no halos.
                5.  The output canvas must be a 1500x1500 pixel square. Center the product within this canvas, leaving approximately 10% padding on all sides.
                ''\<close>

definition style_prompt_transparent_plain :: "string" where
  \<open>style_prompt_transparent_plain =
      ''
                **Goal: Isolate the target product on a transparent background WITHOUT re-styling.**
                1.  The source images provided should be ignored for styling purposes.
                2.  Perfectly isolate the main product from the 'target product' image. The mask must be flawless with clean edges and no halos.
                3.  CRITICAL: Preserve the product's original lighting, color grading, texture, and overall appearance. DO NOT alter the product's look in any way.
                4.  The final output must be ONLY the product on a transparent background.
                5.  The output canvas must be a 1500x1500 pixel square. Center the product within this canvas, leaving approximately 10% padding on all sides.
                ''\<close>

definition style_prompt_product_only :: "string" where
  \<open>style_prompt_product_only =
      ''
                **Goal: Style Transfer for Product ONLY (Original Background MUST be Preserved)**
                1.  **Analyze Style:** Analyze the 'source style' images for their comprehensive photographic style (lighting, color, shadows, reflections, mood).
                2.  **Apply to Product:** Apply this style ONLY to the main product within the 'target product' image.
                3.  **Preserve Background (CRITICAL):** The background of the 'target product' image MUST BE PRESERVED EXACTLY AS IS. DO NOT change, alter, or replace the background in any way. The re-styled product must be seamlessly blended back into its original, untouched background.
                4.  **Preserve Product Form:** You must adhere to the main Primary Directive: Maintain the original product''
      @ [CHR 0xE2, CHR 0x80, CHR 0x99]
      @ ''s physical shape, texture, and all structural details during the style transfer.
                ''\<close>

definition style_prompt_final :: "string" where
  \<open>style_prompt_final =
      ''
            **Final Output Requirements:**
            -   The final image must be a photorealistic, professional-grade photograph.
            -   The canvas must be a 1500x1500 pixel square.
            -   The main product must be perfectly centered, leaving approximately 10% padding on all sides.
            ''\<close>

definition background_prompt_intro :: "string" where
  \<open>background_prompt_intro =
      ''You are an expert background designer for product photography.
        You will be given one or more 'source style' images.
        Your task is to generate a new, photorealistic background that perfectly matches the style of the source images.

        **Analysis:**
        -   Analyze the background in the source images, noting its texture, color palette, lighting, depth of field, and overall ambiance (e.g., studio, lifestyle, rustic, modern).
        -   If there are multiple source images, derive an average or a harmonious blend of these stylistic elements.

        **Final Output Requirements:**
        -   The final image must be a photorealistic, high-quality background.
        -   The canvas must be a 1500x1500 pixel square.
        -   The background should be suitable for placing a product on it later. Ensure there is a clear surface or area where a product could realistically sit.
        ''\<close>

definition background_prompt_additional :: "string \<Rightarrow> string" where
  \<open>background_prompt_additional additionalPrompt =
      ''
            **Additional User Instructions:**
            -   Incorporate the following specific instruction: "''
      @ additionalPrompt
      @ ''". This instruction should modify or override the style transfer where applicable.
            ''\<close>

definition final_prompt_intro :: "string \<Rightarrow> string" where
  \<open>final_prompt_intro orderNote =
      ''You are a world-class product photographer and retoucher. Your task is to perform a professional product photo composite using a provided product image and a provided background image.
        The images are provided in this order: ''
      @ orderNote
      @ ''target product, then background.
        ''\<close>

definition final_prompt_restyle :: "string" where
  \<open>final_prompt_restyle =
      ''
            **Primary Directive: The target product's physical form, shape, dimensions, texture, patterns, and structural details MUST be preserved exactly.** You are only to copy stylistic cues from the 'source style' images. The target product must remain recognizable and true to its original form.

            **Step 1: Re-style Product**
            -   First, analyze the 'source style' images to understand the camera angle, lighting, shadow style, and color grading.
            -   Apply this comprehensive photographic style to the 'target product', re-lighting it to match the source style. This must be done while strictly following the Primary Directive.
            
            **Step 2: Composite and Integrate**
            -   Take the re-styled product from Step 1 and place it onto the provided 'background' image.
            -   Analyze the lighting in the 'background' image and ensure the re-styled product's lighting, shadows, and highlights are perfectly harmonized with the scene.
            -   Create a natural, soft contact shadow underneath the product to ground it in the scene.
            ''\<close>

definition final_prompt_plain :: "string" where
  \<open>final_prompt_plain =
      ''
            **Step 1: Isolate Product**
            -   Perfectly isolate the main product from the 'target product' image. The mask must be flawless with clean edges and no halos.
            -   CRITICAL: Preserve the product's original lighting, color grading, texture, and overall appearance. DO NOT alter the product's look in any way.
            
            **Step 2: Composite and Add Shadow**
            -   Place the original, unchanged product from Step 1 onto the provided 'background' image.
            -   Create a natural, soft contact shadow underneath the product to ground it in the scene. The shadow must be consistent with the direction and softness of the main light source in the background, but the lighting ON THE PRODUCT ITSELF must not be changed.
            ''\<close>

definition final_prompt_output :: "string" where
  \<open>final_prompt_output =
      ''
        **Final Output Requirements:**
        -   The final output should be the composite on the provided background canvas (1500x1500 pixels).
        -   Center the product within the canvas, leaving approximately 10% padding on all sides.
        -   Preserve all original texture and fine details of the product.
        -   The final result should look like a real, professionally shot photograph.
        ''\<close>

definition details_prompt :: "string" where
  \<open>details_prompt =
      ''You are a professional technical writer and product marketer. Analyze the provided product image and generate a complete set of product details. Identify the product and provide concise, accurate, and well-formatted information for each of the following fields. If a field is not applicable or information cannot be determined from the image, state "Not available from image".''\<close>

text \<open>A string is truthy when it is defined and not empty.\<close>

fun truthy :: "string option \<Rightarrow> bool" where
  "truthy None = False"
| "truthy (Some s) = (s \<noteq> [])"

definition composite_prompt :: "string \<Rightarrow> bool \<Rightarrow> AspectRatio \<Rightarrow> string" where
  "composite_prompt backgroundPrompt isTransparent aspectRatio =
     (let canvasDescription = getCanvasDescription aspectRatio
      in if isTransparent then composite_prompt_transparent canvasDescription
         else composite_prompt_scene backgroundPrompt canvasDescription)"

record style_options =
  opt_copyProductStyle :: bool
  opt_copyBackgroundStyle :: bool
  opt_isTransparent :: bool
  opt_prompt :: "string option"

definition copyProductStyle_prompt :: "style_options \<Rightarrow> string" where
  "copyProductStyle_prompt options =
     (let prompt0 = style_prompt_intro;
          prompt1 = (if truthy (opt_prompt options)
                     then prompt0 @ style_prompt_additional (the (opt_prompt options))
                     else prompt0)
      in if opt_isTransparent options
         then (if opt_copyProductStyle options
               then prompt1 @ style_prompt_transparent_restyle
               else prompt1 @ style_prompt_transparent_plain)
         else (let prompt2 = (if opt_copyProductStyle options
                              then prompt1 @ style_prompt_product_only
                              else prompt1)
               in prompt2 @ style_prompt_final))"

definition generateStyledBackground_prompt :: "string option \<Rightarrow> string" where
  "generateStyledBackground_prompt additionalPrompt =
     (if truthy additionalPrompt
      then background_prompt_intro @ background_prompt_additional (the additionalPrompt)
      else background_prompt_intro)"

record composite_options =
  cmp_copyProductStyle :: bool
  sourceStyleImages :: "File list option"

definition has_style_images :: "composite_options \<Rightarrow> bool" where
  "has_style_images options =
     (case sourceStyleImages options of None \<Rightarrow> False | Some fs \<Rightarrow> length fs > 0)"

definition compositeProductWithBackground_prompt :: "composite_options \<Rightarrow> string" where
  "compositeProductWithBackground_prompt options =
     (let prompt0 = final_prompt_intro
                      (if has_style_images options then ''source style images, '' else '''');
          prompt1 = (if cmp_copyProductStyle options \<and> has_style_images options
                     then prompt0 @ final_prompt_restyle
                     else prompt0 @ final_prompt_plain)
      in prompt1 @ final_prompt_output)"

section \<open>Remote image service client\<close>

definition fileToGenerativePart :: "File \<Rightarrow> part io" where
  "fileToGenerativePart f =
     io_bind (fileToBase64 f) (\<lambda>base64Data.
       io_return \<lparr>inlineData = Some \<lparr>data = Some base64Data, mimeType = Some (getMimeType f)\<rparr>,
                  part_text = None\<rparr>)"

text \<open>The part that \<^verbatim>\<open>fileToGenerativePart\<close> resolves to when the read succeeds.\<close>

definition encoded_part :: "File \<Rightarrow> part" where
  "encoded_part f =
     \<lparr>inlineData = Some \<lparr>data = Some (hd (tl (split_on CHR '','' (readAsDataURL f)))),
                             mimeType = Some (file_type f)\<rparr>,
      part_text = None\<rparr>"

definition textPart_of :: "string \<Rightarrow> part" where
  "textPart_of prompt = \<lparr>inlineData = None, part_text = Some prompt\<rparr>"

text \<open>
  \<^verbatim>\<open>response.candidates?.[0]?.content?.parts[0]\<close>: the first part of the first candidate.
  The optional chain answers \<^verbatim>\<open>undefined\<close> when the candidates, the first candidate or its
  content is missing; the index \<^verbatim>\<open>[0]\<close> is not guarded, so a content without \<^verbatim>\<open>parts\<close>
  throws a \<^verbatim>\<open>TypeError\<close>, and an empty list of parts gives \<^verbatim>\<open>undefined\<close>.  Every image
  operation reads the response through this expression.
\<close>

definition firstPart_of :: "gen_response \<Rightarrow> part option io" where
  "firstPart_of response =
     (case candidates response of
        None \<Rightarrow> io_return None
      | Some [] \<Rightarrow> io_return None
      | Some (c # _) \<Rightarrow>
          (case content c of
             None \<Rightarrow> io_return None
           | Some ct \<Rightarrow>
               (case parts ct of
                  None \<Rightarrow> io_throw (Error (cannot_read_message ''0''))
                | Some [] \<Rightarrow> io_return None
                | Some (p # _) \<Rightarrow> io_return (Some p))))"

text \<open>
  The lines after each request: return \<^verbatim>\<open>firstPart.inlineData.data\<close> (a string, or
  \<^verbatim>\<open>undefined\<close> when the inline data has no \<^verbatim>\<open>data\<close>) when the first part exists and
  carries inline data, and throw an \<^verbatim>\<open>Error\<close> with the operation's message otherwise.
\<close>

definition return_inlineData :: "gen_response \<Rightarrow> string \<Rightarrow> string option io" where
  "return_inlineData response message =
     io_bind (firstPart_of response) (\<lambda>firstPart.
       case firstPart of
         None \<Rightarrow> io_throw (Error message)
       | Some p \<Rightarrow>
           (case inlineData p of
              None \<Rightarrow> io_throw (Error message)
            | Some b \<Rightarrow> io_return (data b)))"

text \<open>
  The \<^verbatim>\<open>catch\<close> block of the wrapping operations: an \<^verbatim>\<open>Error\<close> is thrown again with
  the task's prefix before its message, any other value as the task's unknown-error
  message.
\<close>

fun wrapped :: "string \<Rightarrow> string \<Rightarrow> js_error \<Rightarrow> js_error" where
  "wrapped pre unknown (Error m) = Error (pre @ m)"
| "wrapped pre unknown (Thrown v) = Error unknown"

definition rethrow :: "string \<Rightarrow> string \<Rightarrow> js_error \<Rightarrow> 'a io" where
  "rethrow pre unknown e = io_throw (wrapped pre unknown e)"

definition image_request :: "part list \<Rightarrow> request" where
  "image_request allParts =
     \<lparr>req_model = ''gemini-2.5-flash-image'', req_parts = allParts,
      req_config = ResponseModalities [IMAGE]\<rparr>"

definition no_image_message :: string where
  "no_image_message = ''No image data received from API.''"

definition compositeProductImage ::
  "service \<Rightarrow> File \<Rightarrow> string \<Rightarrow> bool \<Rightarrow> AspectRatio \<Rightarrow> string option io" where
  "compositeProductImage ai productImage backgroundPrompt isTransparent aspectRatio =
     io_bind (fileToGenerativePart productImage) (\<lambda>imagePart.
       let prompt = composite_prompt backgroundPrompt isTransparent aspectRatio;
           textPart = textPart_of prompt
       in io_bind (call_generateContent ai (image_request [imagePart, textPart]))
            (\<lambda>response. return_inlineData response no_image_message))"

definition editImageWithPrompt :: "service \<Rightarrow> File \<Rightarrow> string \<Rightarrow> string option io" where
  "editImageWithPrompt ai sourceImage prompt =
     io_bind (fileToGenerativePart sourceImage) (\<lambda>imagePart.
       let textPart = textPart_of prompt
       in io_bind (call_generateContent ai (image_request [imagePart, textPart]))
            (\<lambda>response. return_inlineData response no_image_message))"

record generate_options =
  gen_negativePrompt :: "string option"
  gen_seed :: "int option"

definition generateImage ::
  "service \<Rightarrow> string \<Rightarrow> AspectRatio \<Rightarrow> generate_options \<Rightarrow> string option io" where
  "generateImage ai prompt aspectRatio options =
     (let config = \<lparr>img_model = ''imagen-4.0-generate-001'', img_prompt = prompt,
                     numberOfImages = 1, outputMimeType = ''image/png'',
                     img_aspectRatio = aspectRatio,
                     negativePrompt = (if truthy (gen_negativePrompt options)
                                       then gen_negativePrompt options else None),
                     seed = gen_seed options\<rparr>
      in io_bind (call_generateImages ai config) (\<lambda>response.
           case generatedImages response of
             None \<Rightarrow> io_throw (Error no_image_message)
           | Some [] \<Rightarrow> io_throw (Error no_image_message)
           | Some (g # _) \<Rightarrow>
               (case gen_image g of
                  None \<Rightarrow> io_throw (Error (cannot_read_message ''imageBytes''))
                | Some img \<Rightarrow> io_return (imageBytes img))))"

definition invalid_selection_message :: string where
  "invalid_selection_message =
     ''At least one copy option or transparent background must be selected.''"

definition style_no_image_message :: string where
  "style_no_image_message =
     ''The AI service did not return an image. This might be due to a content safety policy. Please try a different image or prompt.''"

text \<open>The \<^verbatim>\<open>try\<close> block of \<^verbatim>\<open>copyProductStyle\<close>, and the operation.\<close>

definition copyProductStyle_try ::
  "service \<Rightarrow> File list \<Rightarrow> File \<Rightarrow> style_options \<Rightarrow> string option io" where
  "copyProductStyle_try ai sourceImages targetImage options =
     io_bind (Promise_all (map fileToGenerativePart sourceImages)) (\<lambda>sourceImageParts.
     io_bind (fileToGenerativePart targetImage) (\<lambda>targetImagePart.
       let prompt = copyProductStyle_prompt options;
           textPart = textPart_of prompt;
           allParts = sourceImageParts @ [targetImagePart, textPart]
       in io_bind (call_generateContent ai (image_request allParts))
            (\<lambda>response. return_inlineData response style_no_image_message)))"

definition copyProductStyle ::
  "service \<Rightarrow> File list \<Rightarrow> File \<Rightarrow> style_options \<Rightarrow> string option io" where
  "copyProductStyle ai sourceImages targetImage options =
     (if \<not> opt_copyProductStyle options \<and> \<not> opt_copyBackgroundStyle options
         \<and> \<not> opt_isTransparent options
      then io_throw (Error invalid_selection_message)
      else io_catch (copyProductStyle_try ai sourceImages targetImage options)
             (rethrow ''Image processing failed: ''
                ''An unknown network or API error occurred.''))"

definition background_no_image_message :: string where
  "background_no_image_message =
     ''The AI service did not return a background image. This might be due to a content safety policy. Please try a different image or prompt.''"

definition generateStyledBackground_try ::
  "service \<Rightarrow> File list \<Rightarrow> string option \<Rightarrow> string option io" where
  "generateStyledBackground_try ai sourceImages additionalPrompt =
     io_bind (Promise_all (map fileToGenerativePart sourceImages)) (\<lambda>sourceImageParts.
       let prompt = generateStyledBackground_prompt additionalPrompt;
           textPart = textPart_of prompt;
           allParts = sourceImageParts @ [textPart]
       in io_bind (call_generateContent ai (image_request allParts))
            (\<lambda>response. return_inlineData response background_no_image_message))"

definition generateStyledBackground ::
  "service \<Rightarrow> File list \<Rightarrow> string option \<Rightarrow> string option io" where
  "generateStyledBackground ai sourceImages additionalPrompt =
     io_catch (generateStyledBackground_try ai sourceImages additionalPrompt)
       (rethrow ''Background generation failed: ''
          ''An unknown network or API error occurred while generating the background.'')"

definition final_no_image_message :: string where
  "final_no_image_message =
     ''The AI service did not return the final composite image. This could be due to a content safety policy.''"

definition compositeProductWithBackground_try ::
  "service \<Rightarrow> File \<Rightarrow> File \<Rightarrow> composite_options \<Rightarrow> string option io" where
  "compositeProductWithBackground_try ai targetImage backgroundImage options =
     io_bind (fileToGenerativePart targetImage) (\<lambda>targetImagePart.
     io_bind (fileToGenerativePart backgroundImage) (\<lambda>backgroundImagePart.
     io_bind (case sourceStyleImages options of
                Some fs \<Rightarrow> Promise_all (map fileToGenerativePart fs)
              | None \<Rightarrow> io_return []) (\<lambda>sourceStyleParts.
       let prompt = compositeProductWithBackground_prompt options;
           textPart = textPart_of prompt;
           allParts = sourceStyleParts @ [targetImagePart, backgroundImagePart, textPart]
       in io_bind (call_generateContent ai (image_request allParts))
            (\<lambda>response. return_inlineData response final_no_image_message))))"

definition compositeProductWithBackground ::
  "service \<Rightarrow> File \<Rightarrow> File \<Rightarrow> composite_options \<Rightarrow> string option io" where
  "compositeProductWithBackground ai targetImage backgroundImage options =
     io_catch (compositeProductWithBackground_try ai targetImage backgroundImage options)
       (rethrow ''Image composition failed: ''
          ''An unknown network or API error occurred during the final composition.'')"

section \<open>JSON\<close>

text \<open>
  The platform's \<^verbatim>\<open>JSON.parse\<close> and \<^verbatim>\<open>JSON.stringify\<close>.  Strings are sequences of
  bytes (UTF-8); a number keeps its lexeme; an object keeps its members in the order of
  their first occurrence, a repeated key taking its last value.
\<close>

datatype json =
  JNull
| JBool bool
| JNumber string
| JString string
| JArray "json list"
| JObject "(string \<times> json) list"

definition is_json_ws :: "char \<Rightarrow> bool" where
  "is_json_ws c = (c \<in> set [CHR 0x20, CHR 0x09, CHR 0x0A, CHR 0x0D])"

definition skip_ws :: "string \<Rightarrow> string" where
  "skip_ws s = dropWhile is_json_ws s"

definition is_digit :: "char \<Rightarrow> bool" where
  "is_digit c = (48 \<le> (of_char c :: nat) \<and> (of_char c :: nat) \<le> 57)"

definition hex_value :: "char \<Rightarrow> nat option" where
  "hex_value c =
     (let n = (of_char c :: nat)
      in if 48 \<le> n \<and> n \<le> 57 then Some (n - 48)
         else if 97 \<le> n \<and> n \<le> 102 then Some (n - 87)
         else if 65 \<le> n \<and> n \<le> 70 then Some (n - 55)
         else None)"

definition hex4 :: "char \<Rightarrow> char \<Rightarrow> char \<Rightarrow> char \<Rightarrow> nat option" where
  "hex4 a b c d =
     (case (hex_value a, hex_value b, hex_value c, hex_value d) of
        (Some p, Some q, Some r, Some s) \<Rightarrow> Some (p * 4096 + q * 256 + r * 16 + s)
      | _ \<Rightarrow> None)"

definition unescape :: "char \<Rightarrow> char option" where
  "unescape e =
     (if e = CHR 0x22 \<or> e = CHR 0x5C \<or> e = CHR ''/'' then Some e
      else if e = CHR ''b'' then Some (CHR 0x08)
      else if e = CHR ''f'' then Some (CHR 0x0C)
      else if e = CHR ''n'' then Some (CHR 0x0A)
      else if e = CHR ''r'' then Some (CHR 0x0D)
      else if e = CHR ''t'' then Some (CHR 0x09)
      else None)"

text \<open>
  The units of a string literal behind its opening quote, up to the closing quote, and
  the text behind the literal.  A unit is a byte of the text, or the code unit of an
  escape \<^verbatim>\<open>\uXXXX\<close>.
\<close>

datatype string_unit = Plain char | Escaped nat

fun parse_units :: "string \<Rightarrow> (string_unit list \<times> string) option" where
  "parse_units [] = None"
| "parse_units (c # cs) =
     (if c = CHR 0x22 then Some ([], cs)
      else if c = CHR 0x5C then
        (case cs of
           [] \<Rightarrow> None
         | e # es \<Rightarrow>
             if e = CHR ''u'' then
               (case es of
                  h1 # h2 # h3 # h4 # r \<Rightarrow>
                    (case hex4 h1 h2 h3 h4 of
                       None \<Rightarrow> None
                     | Some n \<Rightarrow> map_option (apfst ((#) (Escaped n))) (parse_units r))
                | _ \<Rightarrow> None)
             else
               (case unescape e of
                  None \<Rightarrow> None
                | Some d \<Rightarrow> map_option (apfst ((#) (Plain d))) (parse_units es)))
      else if (of_char c :: nat) < 32 then None
      else map_option (apfst ((#) (Plain c))) (parse_units cs))"

text \<open>
  The bytes of the units: an escaped high surrogate followed by an escaped low one is one
  code point.
\<close>

fun units_to_string :: "string_unit list \<Rightarrow> string" where
  "units_to_string [] = []"
| "units_to_string (Plain c # us) = c # units_to_string us"
| "units_to_string (Escaped u # Escaped v # us) =
     (if 55296 \<le> u \<and> u < 56320 \<and> 56320 \<le> v \<and> v < 57344
      then utf8 (65536 + (u - 55296) * 1024 + (v - 56320)) @ units_to_string us
      else utf8 u @ units_to_string (Escaped v # us))"
| "units_to_string (Escaped u # us) = utf8 u @ units_to_string us"

definition parse_string :: "string \<Rightarrow> (string \<times> string) option" where
  "parse_string s = map_option (apfst units_to_string) (parse_units s)"

text \<open>A number: an optional minus, an integer part without a leading zero, an optional
  fraction and an optional exponent.\<close>

definition parse_number :: "string \<Rightarrow> (string \<times> string) option" where
  "parse_number s =
     (let sign = takeWhile (\<lambda>c. c = CHR ''-'') (take 1 s);
          s1 = drop (length sign) s;
          ds = takeWhile is_digit s1;
          s2 = dropWhile is_digit s1;
          frac_digits = (case s2 of c # r \<Rightarrow> if c = CHR ''.'' then takeWhile is_digit r else [] | [] \<Rightarrow> []);
          has_frac = (case s2 of c # r \<Rightarrow> c = CHR ''.'' | [] \<Rightarrow> False);
          frac = (if has_frac then CHR ''.'' # frac_digits else []);
          s3 = drop (length frac) s2;
          has_exp = (case s3 of c # r \<Rightarrow> c = CHR ''e'' \<or> c = CHR ''E'' | [] \<Rightarrow> False);
          exp_sign = (if has_exp
                      then takeWhile (\<lambda>c. c = CHR ''+'' \<or> c = CHR ''-'') (take 1 (drop 1 s3))
                      else []);
          exp_digits = (if has_exp then takeWhile is_digit (drop (1 + length exp_sign) s3) else []);
          expo = (if has_exp then take 1 s3 @ exp_sign @ exp_digits else []);
          s4 = drop (length expo) s3
      in if ds = [] \<or> (length ds > 1 \<and> hd ds = CHR ''0'') \<or> (has_frac \<and> frac_digits = [])
            \<or> (has_exp \<and> exp_digits = [])
         then None
         else Some (sign @ ds @ frac @ expo, s4))"

text \<open>\<^verbatim>\<open>obj[k] = v\<close> on the members of an object.\<close>

fun set_member :: "string \<Rightarrow> json \<Rightarrow> (string \<times> json) list \<Rightarrow> (string \<times> json) list" where
  "set_member k v [] = [(k, v)]"
| "set_member k v ((k', v') # ms) =
     (if k' = k then (k, v) # ms else (k', v') # set_member k v ms)"

definition object_of :: "(string \<times> json) list \<Rightarrow> json" where
  "object_of ms = JObject (foldl (\<lambda>acc kv. set_member (fst kv) (snd kv) acc) [] ms)"

text \<open>
  The grammar, one step of the recursive descent each: a value, the elements of an array
  behind its bracket or a comma, and the members of an object behind its brace or a
  comma.  The parsers of the parts are arguments.
\<close>

type_synonym 'a parser = "string \<Rightarrow> ('a \<times> string) option"

definition value_step ::
  "json list parser \<Rightarrow> (string \<times> json) list parser \<Rightarrow> json parser" where
  "value_step elements members s =
     (case skip_ws s of
        [] \<Rightarrow> None
      | c # cs \<Rightarrow>
          if c = CHR ''{'' then
            (case skip_ws cs of
               [] \<Rightarrow> None
             | d # ds \<Rightarrow>
                 if d = CHR ''}'' then Some (JObject [], ds)
                 else map_option (apfst object_of) (members (d # ds)))
          else if c = CHR ''['' then
            (case skip_ws cs of
               [] \<Rightarrow> None
             | d # ds \<Rightarrow>
                 if d = CHR '']'' then Some (JArray [], ds)
                 else map_option (apfst JArray) (elements (d # ds)))
          else if c = CHR 0x22 then map_option (apfst JString) (parse_string cs)
          else if startsWith (c # cs) ''true'' then Some (JBool True, drop 4 (c # cs))
          else if startsWith (c # cs) ''false'' then Some (JBool False, drop 5 (c # cs))
          else if startsWith (c # cs) ''null'' then Some (JNull, drop 4 (c # cs))
          else map_option (apfst JNumber) (parse_number (c # cs)))"

definition elements_step :: "json parser \<Rightarrow> json list parser \<Rightarrow> json list parser" where
  "elements_step val elements s =
     (case val s of
        None \<Rightarrow> None
      | Some (v, r) \<Rightarrow>
          (case skip_ws r of
             [] \<Rightarrow> None
           | c # cs \<Rightarrow>
               if c = CHR '','' then map_option (apfst ((#) v)) (elements cs)
               else if c = CHR '']'' then Some ([v], cs)
               else None))"

definition members_step ::
  "json parser \<Rightarrow> (string \<times> json) list parser \<Rightarrow> (string \<times> json) list parser" where
  "members_step val members s =
     (case skip_ws s of
        [] \<Rightarrow> None
      | c # cs \<Rightarrow>
          if c = CHR 0x22 then
            (case parse_string cs of
               None \<Rightarrow> None
             | Some (k, r) \<Rightarrow>
                 (case skip_ws r of
                    [] \<Rightarrow> None
                  | d # ds \<Rightarrow>
                      if d = CHR '':'' then
                        (case val ds of
                           None \<Rightarrow> None
                         | Some (v, r') \<Rightarrow>
                             (case skip_ws r' of
                                [] \<Rightarrow> None
                              | e # es \<Rightarrow>
                                  if e = CHR '','' then
                                    map_option (apfst ((#) (k, v))) (members es)
                                  else if e = CHR ''}'' then Some ([(k, v)], es)
                                  else None))
                      else None))
          else None)"

text \<open>
  The recursive descent.  The first argument bounds the number of nested and successive
  values still to be read; a text of \<open>n\<close> characters never needs more than \<open>n\<close>
  (lemma \<open>fuel_enough\<close> below).
\<close>

fun parse_value :: "nat \<Rightarrow> json parser"
  and parse_elements :: "nat \<Rightarrow> json list parser"
  and parse_members :: "nat \<Rightarrow> (string \<times> json) list parser"
where
  "parse_value 0 s = None"
| "parse_value (Suc n) s =
     value_step (\<lambda>t. parse_elements n t) (\<lambda>t. parse_members n t) s"
| "parse_elements 0 s = None"
| "parse_elements (Suc n) s =
     elements_step (\<lambda>t. parse_value n t) (\<lambda>t. parse_elements n t) s"
| "parse_members 0 s = None"
| "parse_members (Suc n) s =
     members_step (\<lambda>t. parse_value n t) (\<lambda>t. parse_members n t) s"

text \<open>\<^verbatim>\<open>JSON.parse\<close>: the value of the text, or nothing where it throws a \<^verbatim>\<open>SyntaxError\<close>.\<close>

definition JSON_parse :: "string \<Rightarrow> json option" where
  "JSON_parse s =
     (case parse_value (Suc (length s)) s of
        None \<Rightarrow> None
      | Some (v, r) \<Rightarrow> if skip_ws r = [] then Some v else None)"

text \<open>Property access \<^verbatim>\<open>obj.k\<close> on a parsed value.\<close>

fun get_member :: "json \<Rightarrow> string \<Rightarrow> json option" where
  "get_member (JObject ms) k = map_of ms k"
| "get_member _ k = None"

text \<open>\<^verbatim>\<open>JSON.stringify\<close> of an array of strings.\<close>

definition hex_digit :: "nat \<Rightarrow> char" where
  "hex_digit n = ''0123456789abcdef'' ! (n mod 16)"

definition escape_char :: "char \<Rightarrow> string" where
  "escape_char c =
     (if c = CHR 0x22 then [CHR 0x5C, CHR 0x22]
      else if c = CHR 0x5C then [CHR 0x5C, CHR 0x5C]
      else if c = CHR 0x08 then [CHR 0x5C, CHR ''b'']
      else if c = CHR 0x0C then [CHR 0x5C, CHR ''f'']
      else if c = CHR 0x0A then [CHR 0x5C, CHR ''n'']
      else if c = CHR 0x0D then [CHR 0x5C, CHR ''r'']
      else if c = CHR 0x09 then [CHR 0x5C, CHR ''t'']
      else if (of_char c :: nat) < 32
        then [CHR 0x5C, CHR ''u'', CHR ''0'', CHR ''0'', hex_digit (of_char c div 16),
              hex_digit (of_char c)]
      else [c])"

definition quote_string :: "string \<Rightarrow> string" where
  "quote_string s = CHR 0x22 # concat (map escape_char s) @ [CHR 0x22]"

fun join_with :: "string \<Rightarrow> string list \<Rightarrow> string" where
  "join_with sep [] = []"
| "join_with sep [x] = x"
| "join_with sep (x # y # ys) = x @ sep @ join_with sep (y # ys)"

definition JSON_stringify_strings :: "string list \<Rightarrow> string" where
  "JSON_stringify_strings xs = ''['' @ join_with '','' (map quote_string xs) @ '']''"

section \<open>Product details\<close>

text \<open>
  The response schema of \<^verbatim>\<open>generateProductDetails\<close>: seven properties of type string,
  each with its description, all of them required.
\<close>

definition details_properties :: "(string \<times> string) list" where
  \<open>details_properties =
     [
      (''specifications'',
       ''Detailed technical specifications (e.g., dimensions, material, weight, connectivity).''),
      (''usageInstructions'',
       ''Clear, step-by-step instructions on how to use the product.''),
      (''compatibility'',
       ''Information on what other devices, software, or systems this product is compatible with.''),
      (''maintenanceTips'',
       ''Tips for cleaning, storing, and maintaining the product to ensure longevity.''),
      (''performanceMetrics'',
       ''Key performance indicators (e.g., battery life, charging time, speed, power output).''),
      (''warranty'',
       ''A standard or plausible warranty statement for this type of product.''),
      (''status'',
       ''The current status or condition of the product shown (e.g., "New", "In use", "Charging").'')
     ]\<close>

definition details_required :: "string list" where
  "details_required =
     [''specifications'', ''usageInstructions'', ''compatibility'', ''maintenanceTips'',
      ''performanceMetrics'', ''warranty'', ''status'']"

definition details_request :: "part list \<Rightarrow> request" where
  "details_request allParts =
     \<lparr>req_model = ''gemini-2.5-flash'', req_parts = allParts,
      req_config = ResponseSchema ''application/json'' details_properties details_required\<rparr>"

definition malformed_message :: string where
  "malformed_message =
     ''Could not read the product details from the AI. The format might be incorrect.''"

text \<open>
  The inner \<^verbatim>\<open>try\<close> block: \<^verbatim>\<open>response.text.trim()\<close> (a \<^verbatim>\<open>TypeError\<close> when the response
  has no text), the check for an empty text, and \<^verbatim>\<open>JSON.parse\<close>, whose value is returned
  under the type \<^verbatim>\<open>ProductDetails\<close> as it is.  The message of the \<^verbatim>\<open>SyntaxError\<close> of
  \<^verbatim>\<open>JSON.parse\<close> is the engine's; the \<^verbatim>\<open>catch\<close> block around these lines reads no message.
\<close>

definition read_details :: "gen_response \<Rightarrow> json io" where
  \<open>read_details response =
     (case response_text response of
        None \<Rightarrow> io_throw (Error (cannot_read_message ''trim''))
      | Some t \<Rightarrow>
          (let jsonText = trim t
           in if jsonText = [] then io_throw (Error ''API returned empty details.'')
              else (case JSON_parse jsonText of
                      None \<Rightarrow> io_throw (Error ''SyntaxError'')
                    | Some parsedJson \<Rightarrow> io_return parsedJson)))\<close>

definition generateProductDetails_try :: "service \<Rightarrow> File \<Rightarrow> json io" where
  "generateProductDetails_try ai productImage =
     io_bind (fileToGenerativePart productImage) (\<lambda>imagePart.
       let textPart = textPart_of details_prompt
       in io_bind (call_generateContent ai (details_request [imagePart, textPart]))
            (\<lambda>response.
               io_catch (read_details response)
                 (\<lambda>e. io_throw (Error malformed_message))))"

definition generateProductDetails :: "service \<Rightarrow> File \<Rightarrow> json io" where
  "generateProductDetails ai productImage =
     io_catch (generateProductDetails_try ai productImage)
       (rethrow ''Failed to generate details: ''
          ''An unknown network or API error occurred while generating product details.'')"

section \<open>Views\<close>

text \<open>
  The state of a view is the record of its \<^verbatim>\<open>useState\<close> cells.  A handler maps the state
  before the event to the state after its last update, and lists the effects of the
  service calls it awaited.  A cell that holds a string or \<^verbatim>\<open>null\<close> is an optional string;
  \<open>None\<close> is \<^verbatim>\<open>null\<close>, and \<^verbatim>\<open>undefined\<close> where an operation returned that.
\<close>

record ImageFile =
  image_file :: File
  previewUrl :: string

text \<open>The message a view shows for a caught value: \<^verbatim>\<open>e.message\<close> for an \<^verbatim>\<open>Error\<close>, the
  view's own text otherwise.\<close>

fun message_or :: "string \<Rightarrow> js_error \<Rightarrow> string" where
  "message_or fallback (Error m) = m"
| "message_or fallback (Thrown v) = fallback"

subsection \<open>ProductStudio\<close>

definition USER_PRESETS_STORAGE_KEY :: string where
  "USER_PRESETS_STORAGE_KEY = ''ai-photo-studio-user-presets''"

record background_preset =
  preset_label :: string
  preset_prompt :: string

definition BACKGROUND_PRESETS :: "background_preset list" where
  "BACKGROUND_PRESETS =
     [
      \<lparr>preset_label = ''Studio White'',
       preset_prompt = ''A clean, white studio background with soft, diffused lighting.''\<rparr>,
      \<lparr>preset_label = ''Rustic Wood'',
       preset_prompt = ''A rustic wooden tabletop with a warm, cozy atmosphere.''\<rparr>,
      \<lparr>preset_label = ''Marble Counter'',
       preset_prompt = ''A sleek, modern kitchen counter made of marble.''\<rparr>,
      \<lparr>preset_label = ''Forest Floor'',
       preset_prompt = ''Outdoors on a mossy rock in a lush, green forest.''\<rparr>,
      \<lparr>preset_label = ''Reflective Black'',
       preset_prompt = ''On a reflective black surface with dramatic, cinematic lighting.''\<rparr>,
      \<lparr>preset_label = ''Sandy Beach'',
       preset_prompt = ''On a sandy beach with gentle waves and soft sunlight.''\<rparr>,
      \<lparr>preset_label = ''Abstract Gradient'',
       preset_prompt = ''Suspended in mid-air against a vibrant, abstract, colorful gradient background.''\<rparr>,
      \<lparr>preset_label = ''Coffee Beans'',
       preset_prompt = ''Resting on a pile of freshly roasted coffee beans with gentle steam rising.''\<rparr>,
      \<lparr>preset_label = ''Minimalist Room'',
       preset_prompt = ''In a bright, minimalist, Scandinavian-style room with natural light from a window.''\<rparr>
     ]"

text \<open>The browser's local storage: its items, and whether a write exceeds the quota.\<close>

record local_storage =
  items :: "string \<Rightarrow> string option"
  quota_exceeded :: bool

definition getItem :: "local_storage \<Rightarrow> string \<Rightarrow> string option" where
  "getItem st k = items st k"

definition setItem :: "local_storage \<Rightarrow> string \<Rightarrow> string \<Rightarrow> js_error + local_storage" where
  "setItem st k v =
     (if quota_exceeded st then Inl (Error ''QuotaExceededError'')
      else Inr (st\<lparr>items := (items st)(k \<mapsto> v)\<rparr>))"

record ps_state =
  ps_productImage :: "ImageFile option"
  ps_backgroundPrompt :: string
  ps_userPresets :: "string list"
  ps_isTransparent :: bool
  ps_isLoading :: bool
  ps_error :: "string option"
  ps_resultImage :: "string option"
  ps_exportQuality :: ExportQuality
  ps_aspectRatio :: AspectRatio
  ps_isDownloading :: bool

definition ps_initial :: ps_state where
  "ps_initial =
     \<lparr>ps_productImage = None,
      ps_backgroundPrompt = ''A clean, white studio background with soft, diffused lighting.'',
      ps_userPresets = [], ps_isTransparent = False, ps_isLoading = False, ps_error = None,
      ps_resultImage = None, ps_exportQuality = High, ps_aspectRatio = R1_1,
      ps_isDownloading = False\<rparr>"

text \<open>
  The effect that runs when the view is mounted: the stored text, if there is one, is
  parsed and its value becomes the list of user presets, unchecked; a text that is not
  JSON is logged and ignored.  The state holds a list of strings: the effect is modelled
  (\<open>Some\<close>) where it stores nothing or an array of strings.
\<close>

fun string_of :: "json \<Rightarrow> string option" where
  "string_of (JString x) = Some x"
| "string_of _ = None"

fun strings_of :: "json \<Rightarrow> string list option" where
  "strings_of (JArray vs) =
     (if list_all (\<lambda>v. string_of v \<noteq> None) vs then Some (map (\<lambda>v. the (string_of v)) vs)
      else None)"
| "strings_of _ = None"

definition ps_loadUserPresets :: "local_storage \<Rightarrow> ps_state \<Rightarrow> ps_state option" where
  "ps_loadUserPresets st s =
     (case getItem st USER_PRESETS_STORAGE_KEY of
        None \<Rightarrow> Some s
      | Some savedPresets \<Rightarrow>
          if savedPresets = [] then Some s
          else (case JSON_parse savedPresets of
                  None \<Rightarrow> Some s
                | Some v \<Rightarrow> map_option (\<lambda>presets. s\<lparr>ps_userPresets := presets\<rparr>) (strings_of v)))"

definition ps_handleImageDrop :: "ImageFile \<Rightarrow> ps_state \<Rightarrow> ps_state" where
  "ps_handleImageDrop imageFile s = s\<lparr>ps_productImage := Some imageFile, ps_resultImage := None\<rparr>"

definition ps_handleSubmit :: "service \<Rightarrow> ps_state \<Rightarrow> ps_state \<times> event list" where
  "ps_handleSubmit ai s =
     (case ps_productImage s of
        None \<Rightarrow> (s\<lparr>ps_error := Some ''Please upload a product image.''\<rparr>, [])
      | Some productImage \<Rightarrow>
          if ps_backgroundPrompt s = [] \<and> \<not> ps_isTransparent s
          then (s\<lparr>ps_error := Some ''Please provide a background description.''\<rparr>, [])
          else
            (let s1 = s\<lparr>ps_isLoading := True, ps_error := None, ps_resultImage := None\<rparr>;
                 run = compositeProductImage ai (image_file productImage)
                         (ps_backgroundPrompt s) (ps_isTransparent s) (ps_aspectRatio s);
                 s2 = (case fst run of
                         Inr generatedImage \<Rightarrow> s1\<lparr>ps_resultImage := generatedImage\<rparr>
                       | Inl e \<Rightarrow>
                           s1\<lparr>ps_error :=
                                Some ''An error occurred while generating the image. Please try again.''\<rparr>)
             in (s2\<lparr>ps_isLoading := False\<rparr>, snd run)))"

definition handleSavePreset :: "ps_state \<Rightarrow> local_storage \<Rightarrow> ps_state \<times> local_storage" where
  "handleSavePreset s st =
     (let trimmedPrompt = trim (ps_backgroundPrompt s)
      in if trimmedPrompt = [] then (s, st)
         else
           (let allPrompts = map preset_prompt BACKGROUND_PRESETS @ ps_userPresets s
            in if includes_js allPrompts trimmedPrompt then (s, st)
               else
                 (let newPresets = ps_userPresets s @ [trimmedPrompt];
                      s' = s\<lparr>ps_userPresets := newPresets\<rparr>
                  in case setItem st USER_PRESETS_STORAGE_KEY (JSON_stringify_strings newPresets) of
                       Inl e \<Rightarrow> (s', st)
                     | Inr st' \<Rightarrow> (s', st'))))"

definition handleDeletePreset ::
  "string \<Rightarrow> ps_state \<Rightarrow> local_storage \<Rightarrow> ps_state \<times> local_storage" where
  "handleDeletePreset presetToDelete s st =
     (let newPresets = filter (\<lambda>p. p \<noteq> presetToDelete) (ps_userPresets s);
          s' = s\<lparr>ps_userPresets := newPresets\<rparr>
      in case setItem st USER_PRESETS_STORAGE_KEY (JSON_stringify_strings newPresets) of
           Inl e \<Rightarrow> (s', st)
         | Inr st' \<Rightarrow> (s', st'))"

subsection \<open>ImageEditor\<close>

record ie_state =
  ie_sourceImage :: "ImageFile option"
  ie_prompt :: string
  ie_isLoading :: bool
  ie_error :: "string option"
  ie_resultImage :: "string option"

definition ie_handleSubmit :: "service \<Rightarrow> ie_state \<Rightarrow> ie_state \<times> event list" where
  "ie_handleSubmit ai s =
     (case ie_sourceImage s of
        None \<Rightarrow> (s\<lparr>ie_error := Some ''Please upload an image to edit.''\<rparr>, [])
      | Some sourceImage \<Rightarrow>
          if ie_prompt s = []
          then (s\<lparr>ie_error := Some ''Please enter an editing prompt.''\<rparr>, [])
          else
            (let s1 = s\<lparr>ie_isLoading := True, ie_error := None\<rparr>;
                 run = editImageWithPrompt ai (image_file sourceImage) (ie_prompt s);
                 s2 = (case fst run of
                         Inr editedImage \<Rightarrow> s1\<lparr>ie_resultImage := editedImage\<rparr>
                       | Inl e \<Rightarrow>
                           s1\<lparr>ie_error :=
                                Some ''An error occurred while editing the image. Please try again.''\<rparr>)
             in (s2\<lparr>ie_isLoading := False\<rparr>, snd run)))"

subsection \<open>MultiImageDropzone\<close>

text \<open>
  The loop of \<^verbatim>\<open>handleFiles\<close> over the dropped files, with the files added so far; and
  \<^verbatim>\<open>handleFiles\<close> itself, which answers the list it passes to \<^verbatim>\<open>onImagesAdd\<close>, if it
  calls it.
\<close>

fun handleFiles_loop :: "nat \<Rightarrow> nat \<Rightarrow> File list \<Rightarrow> File list \<Rightarrow> File list" where
  "handleFiles_loop n maxFiles [] addedFiles = addedFiles"
| "handleFiles_loop n maxFiles (f # files) addedFiles =
     (if n + length addedFiles \<ge> maxFiles then addedFiles
      else handleFiles_loop n maxFiles files
             (if startsWith (file_type f) ''image/'' then addedFiles @ [f] else addedFiles))"

definition handleFiles :: "ImageFile list \<Rightarrow> nat \<Rightarrow> File list option \<Rightarrow> File list option" where
  "handleFiles images maxFiles files =
     (case files of
        None \<Rightarrow> None
      | Some fs \<Rightarrow>
          (let addedFiles = handleFiles_loop (length images) maxFiles fs []
           in if length addedFiles > 0 then Some addedFiles else None))"

subsection \<open>StyleCopier\<close>

datatype composite_step = StepInitial | StepPreview | StepFinal

record sc_state =
  sc_sourceImages :: "ImageFile list"
  sc_targetImage :: "ImageFile option"
  sc_resultImage :: "string option"
  sc_additionalPrompt :: string
  sc_copiedSuggestionIndex :: "nat option"
  sc_copyProductStyleToggle :: bool
  sc_copyBackgroundStyleToggle :: bool
  sc_isTransparent :: bool
  sc_productDetails :: "json option"
  sc_productDetailsEnabled :: bool
  sc_isGeneratingImage :: bool
  sc_isGeneratingDetails :: bool
  sc_error :: "string option"
  sc_generatedBackground :: "string option"
  sc_compositeStep :: composite_step

definition sc_initial :: sc_state where
  "sc_initial =
     \<lparr>sc_sourceImages = [], sc_targetImage = None, sc_resultImage = None,
      sc_additionalPrompt = [], sc_copiedSuggestionIndex = None,
      sc_copyProductStyleToggle = True, sc_copyBackgroundStyleToggle = False,
      sc_isTransparent = False, sc_productDetails = None, sc_productDetailsEnabled = False,
      sc_isGeneratingImage = False, sc_isGeneratingDetails = False, sc_error = None,
      sc_generatedBackground = None, sc_compositeStep = StepInitial\<rparr>"

text \<open>\<^verbatim>\<open>URL.createObjectURL\<close> is a parameter of the handler that calls it.\<close>

definition handleSourceImagesAdd :: "(File \<Rightarrow> string) \<Rightarrow> File list \<Rightarrow> sc_state \<Rightarrow> sc_state" where
  "handleSourceImagesAdd createObjectURL files s =
     (let maxFiles = 5;
          newImageFiles = map (\<lambda>f. \<lparr>image_file = f, previewUrl = createObjectURL f\<rparr>) files;
          combined = sc_sourceImages s @ newImageFiles
      in s\<lparr>sc_sourceImages := take maxFiles combined\<rparr>)"

definition handleSourceImageRemove :: "nat \<Rightarrow> sc_state \<Rightarrow> sc_state" where
  "handleSourceImageRemove index s =
     s\<lparr>sc_sourceImages :=
         map snd (filter (\<lambda>ix. fst ix \<noteq> index) (enumerate 0 (sc_sourceImages s)))\<rparr>"

text \<open>A drop on the dropzone that the view renders with \<^verbatim>\<open>maxFiles={5}\<close>.\<close>

definition dropSourceFiles :: "(File \<Rightarrow> string) \<Rightarrow> File list \<Rightarrow> sc_state \<Rightarrow> sc_state" where
  "dropSourceFiles createObjectURL files s =
     (case handleFiles (sc_sourceImages s) 5 (Some files) of
        None \<Rightarrow> s
      | Some addedFiles \<Rightarrow> handleSourceImagesAdd createObjectURL addedFiles s)"

definition handleTargetImageDrop :: "ImageFile \<Rightarrow> sc_state \<Rightarrow> sc_state" where
  "handleTargetImageDrop f s =
     s\<lparr>sc_targetImage := Some f, sc_resultImage := None, sc_productDetails := None,
       sc_compositeStep := StepInitial\<rparr>"

definition handleInitialGenerate :: "service \<Rightarrow> sc_state \<Rightarrow> sc_state \<times> event list" where
  "handleInitialGenerate ai s =
     (case sc_targetImage s of
        None \<Rightarrow> (s\<lparr>sc_error := Some ''Please upload both source and target images.''\<rparr>, [])
      | Some targetImage \<Rightarrow>
          if length (sc_sourceImages s) = 0
          then (s\<lparr>sc_error := Some ''Please upload both source and target images.''\<rparr>, [])
          else if \<not> sc_copyProductStyleToggle s \<and> \<not> sc_copyBackgroundStyleToggle s
                  \<and> \<not> sc_isTransparent s
          then (s\<lparr>sc_error :=
                    Some ''Please select at least one copy option or transparent background.''\<rparr>, [])
          else
            (let s1 = s\<lparr>sc_isGeneratingImage := True, sc_error := None, sc_resultImage := None,
                        sc_generatedBackground := None\<rparr>
             in if sc_copyBackgroundStyleToggle s \<and> \<not> sc_isTransparent s
                then
                  (let s2 = s1\<lparr>sc_compositeStep := StepPreview\<rparr>;
                       run = generateStyledBackground ai (map image_file (sc_sourceImages s))
                               (Some (sc_additionalPrompt s));
                       s3 = (case fst run of
                               Inr bg \<Rightarrow> s2\<lparr>sc_generatedBackground := bg\<rparr>
                             | Inl e \<Rightarrow>
                                 s2\<lparr>sc_error :=
                                      Some (message_or
                                        ''An unexpected error occurred while generating the background.'' e),
                                    sc_compositeStep := StepInitial\<rparr>)
                   in (s3\<lparr>sc_isGeneratingImage := False\<rparr>, snd run))
                else
                  (let s2 = s1\<lparr>sc_compositeStep := StepFinal\<rparr>;
                       run = copyProductStyle ai (map image_file (sc_sourceImages s))
                               (image_file targetImage)
                               \<lparr>opt_copyProductStyle = sc_copyProductStyleToggle s,
                                opt_copyBackgroundStyle = False,
                                opt_isTransparent = sc_isTransparent s,
                                opt_prompt = Some (sc_additionalPrompt s)\<rparr>;
                       s3 = (case fst run of
                               Inr finalImage \<Rightarrow> s2\<lparr>sc_resultImage := finalImage\<rparr>
                             | Inl e \<Rightarrow>
                                 s2\<lparr>sc_error :=
                                      Some (message_or
                                        ''An unexpected error occurred while generating the image.'' e)\<rparr>)
                   in (s3\<lparr>sc_isGeneratingImage := False\<rparr>, snd run))))"


definition handleGenerateDetails :: "service \<Rightarrow> sc_state \<Rightarrow> sc_state \<times> event list" where
  "handleGenerateDetails ai s =
     (case sc_targetImage s of
        None \<Rightarrow> (s, [])
      | Some targetImage \<Rightarrow>
          (let s1 = s\<lparr>sc_isGeneratingDetails := True, sc_error := None, sc_productDetails := None\<rparr>;
               run = generateProductDetails ai (image_file targetImage);
               s2 = (case fst run of
                       Inr details \<Rightarrow> s1\<lparr>sc_productDetails := Some details\<rparr>
                     | Inl e \<Rightarrow>
                         s1\<lparr>sc_error :=
                              Some (message_or
                                ''An unexpected error occurred while generating product details.'' e)\<rparr>)
           in (s2\<lparr>sc_isGeneratingDetails := False\<rparr>, snd run)))"

section \<open>Notions used in the statements\<close>

text \<open>
  The parts of the first candidate of a response (none when the candidates, the first
  candidate, its content or its parts are missing), the first of them, and the case that
  the first candidate has a content without \<^verbatim>\<open>parts\<close>.
\<close>

definition response_parts :: "gen_response \<Rightarrow> part list" where
  "response_parts response =
     (case candidates response of
        Some (c # _) \<Rightarrow>
          (case content c of
             Some ct \<Rightarrow> (case parts ct of Some ps \<Rightarrow> ps | None \<Rightarrow> [])
           | None \<Rightarrow> [])
      | _ \<Rightarrow> [])"

definition first_part :: "gen_response \<Rightarrow> part option" where
  "first_part response = (case response_parts response of [] \<Rightarrow> None | p # _ \<Rightarrow> Some p)"

definition parts_missing :: "gen_response \<Rightarrow> bool" where
  "parts_missing response =
     (case candidates response of
        Some (c # _) \<Rightarrow> (case content c of Some ct \<Rightarrow> parts ct = None | None \<Rightarrow> False)
      | _ \<Rightarrow> False)"

text \<open>
  What an image operation answers for a response: the \<^verbatim>\<open>TypeError\<close> when the content has
  no parts; the data of the inline data of the first part when that part carries inline
  data; a failure with the operation's message when there is no first part or it carries
  no inline data.  The wrapping operations put their prefix before the message.
\<close>

definition image_or :: "string \<Rightarrow> string \<Rightarrow> gen_response \<Rightarrow> js_error + string option" where
  "image_or pre message response =
     (if parts_missing response then Inl (Error (pre @ cannot_read_message ''0''))
      else (case first_part response of
              None \<Rightarrow> Inl (Error (pre @ message))
            | Some p \<Rightarrow>
                (case inlineData p of
                   None \<Rightarrow> Inl (Error (pre @ message))
                 | Some b \<Rightarrow> Inr (data b))))"


definition answer_image :: "service \<Rightarrow> request \<Rightarrow> string \<Rightarrow> js_error + string option" where
  "answer_image ai req message =
     (case generateContent ai req of
        Inl e \<Rightarrow> Inl e
      | Inr response \<Rightarrow> image_or [] message response)"

text \<open>The request of each operation, once its files are read.\<close>

definition composite_request :: "File \<Rightarrow> string \<Rightarrow> bool \<Rightarrow> AspectRatio \<Rightarrow> request" where
  "composite_request f bg tr ar =
     image_request [encoded_part f, textPart_of (composite_prompt bg tr ar)]"

definition edit_request :: "File \<Rightarrow> string \<Rightarrow> request" where
  "edit_request f p = image_request [encoded_part f, textPart_of p]"

definition style_request :: "File list \<Rightarrow> File \<Rightarrow> style_options \<Rightarrow> request" where
  "style_request fs f so =
     image_request
       (map encoded_part fs @ [encoded_part f, textPart_of (copyProductStyle_prompt so)])"

definition background_request :: "File list \<Rightarrow> string option \<Rightarrow> request" where
  "background_request fs ap =
     image_request (map encoded_part fs @ [textPart_of (generateStyledBackground_prompt ap)])"



definition generate_request :: "string \<Rightarrow> AspectRatio \<Rightarrow> generate_options \<Rightarrow> images_request" where
  "generate_request p ar go =
     \<lparr>img_model = ''imagen-4.0-generate-001'', img_prompt = p, numberOfImages = 1,
      outputMimeType = ''image/png'', img_aspectRatio = ar,
      negativePrompt = (if truthy (gen_negativePrompt go) then gen_negativePrompt go else None),
      seed = gen_seed go\<rparr>"

definition product_details_request :: "File \<Rightarrow> request" where
  "product_details_request f = details_request [encoded_part f, textPart_of details_prompt]"

text \<open>
  What \<^verbatim>\<open>generateProductDetails\<close> makes of a response inside its \<^verbatim>\<open>try\<close> block: the
  value that \<^verbatim>\<open>JSON.parse\<close> gives for the trimmed text, and the malformed-response error
  when the text is missing, empty after trimming, or not JSON.
\<close>

definition details_or :: "gen_response \<Rightarrow> js_error + json" where
  "details_or response =
     (case response_text response of
        None \<Rightarrow> Inl (Error malformed_message)
      | Some t \<Rightarrow>
          if trim t = [] then Inl (Error malformed_message)
          else (case JSON_parse (trim t) of
                  None \<Rightarrow> Inl (Error malformed_message)
                | Some v \<Rightarrow> Inr v))"

text \<open>
  The shape that the specification expects of the details: an object with the seven
  required members, each a string.
\<close>

definition is_string_member :: "json \<Rightarrow> string \<Rightarrow> bool" where
  "is_string_member v k = (case get_member v k of Some (JString s) \<Rightarrow> True | _ \<Rightarrow> False)"

definition has_details_shape :: "json \<Rightarrow> bool" where
  "has_details_shape v = list_all (is_string_member v) details_required"


text \<open>
  The six-bit groups that the encoder writes for a list of bytes, and the padding it
  appends.
\<close>

fun sextets :: "8 word list \<Rightarrow> nat list" where
  "sextets [] = []"
| "sextets [a] =
     (let n = unat a * 65536 in [n div 262144 mod 64, n div 4096 mod 64])"
| "sextets [a, b] =
     (let n = unat a * 65536 + unat b * 256
      in [n div 262144 mod 64, n div 4096 mod 64, n div 64 mod 64])"
| "sextets (a # b # c # rest) =
     (let n = unat a * 65536 + unat b * 256 + unat c
      in [n div 262144 mod 64, n div 4096 mod 64, n div 64 mod 64, n mod 64] @ sextets rest)"

fun padding :: "8 word list \<Rightarrow> string" where
  "padding [] = []"
| "padding [a] = ''==''"
| "padding [a, b] = ''=''"
| "padding (a # b # c # rest) = padding rest"

text \<open>The test of the dropzones on a file, and a run of drops and removals on the source
  images of the style copier, from its initial state.\<close>

definition is_image_file :: "File \<Rightarrow> bool" where
  "is_image_file f = startsWith (file_type f) ''image/''"

datatype source_action = Drop "File list" | Remove nat

fun source_step :: "(File \<Rightarrow> string) \<Rightarrow> sc_state \<Rightarrow> source_action \<Rightarrow> sc_state" where
  "source_step createObjectURL s (Drop files) = dropSourceFiles createObjectURL files s"
| "source_step createObjectURL s (Remove index) = handleSourceImageRemove index s"

definition source_run :: "(File \<Rightarrow> string) \<Rightarrow> source_action list \<Rightarrow> sc_state" where
  "source_run createObjectURL actions = foldl (source_step createObjectURL) sc_initial actions"

definition source_images_ok :: "sc_state \<Rightarrow> bool" where
  "source_images_ok s =
     (length (sc_sourceImages s) \<le> 5
      \<and> list_all (\<lambda>img. is_image_file (image_file img)) (sc_sourceImages s))"

text \<open>The graphic characters of ASCII, \<open>!\<close> to \<open>~\<close>.\<close>

definition is_graphic :: "char \<Rightarrow> bool" where
  "is_graphic c = (33 \<le> (of_char c :: nat) \<and> (of_char c :: nat) \<le> 126)"

text \<open>
  The prompts that \<^verbatim>\<open>handleSavePreset\<close> compares with, and a run of the product studio on
  its presets from the initial state: the background text is edited, the text is saved as
  a preset, a preset is deleted.
\<close>

definition all_prompts :: "ps_state \<Rightarrow> string list" where
  "all_prompts s = map preset_prompt BACKGROUND_PRESETS @ ps_userPresets s"

datatype preset_action = SetPrompt string | SavePreset | DeletePreset string

fun preset_step :: "ps_state \<times> local_storage \<Rightarrow> preset_action \<Rightarrow> ps_state \<times> local_storage" where
  "preset_step (s, st) (SetPrompt t) = (s\<lparr>ps_backgroundPrompt := t\<rparr>, st)"
| "preset_step (s, st) SavePreset = handleSavePreset s st"
| "preset_step (s, st) (DeletePreset p) = handleDeletePreset p s st"

definition preset_run :: "local_storage \<Rightarrow> preset_action list \<Rightarrow> ps_state \<times> local_storage" where
  "preset_run st actions = foldl preset_step (ps_initial, st) actions"

definition presets_trimmed :: "ps_state \<Rightarrow> bool" where
  "presets_trimmed s = list_all (\<lambda>p. trim p = p) (ps_userPresets s)"

subsection \<open>Values for the examples\<close>

definition shoe_png :: File where
  "shoe_png = \<lparr>file_name = ''shoe.png'', file_type = ''image/png'',
                file_bytes = [137, 80, 78, 71], file_readable = True\<rparr>"

definition notes_txt :: File where
  "notes_txt = \<lparr>file_name = ''notes.txt'', file_type = ''text/plain'',
                 file_bytes = [104, 105], file_readable = True\<rparr>"

definition style_jpg :: File where
  "style_jpg = \<lparr>file_name = ''style.jpg'', file_type = ''image/jpeg'',
                 file_bytes = [255, 216, 255], file_readable = True\<rparr>"

definition image_part :: part where
  "image_part =
     \<lparr>inlineData = Some \<lparr>data = Some ''QUJD'', mimeType = Some ''image/png''\<rparr>, part_text = None\<rparr>"


definition response_with :: "part list \<Rightarrow> gen_response" where
  "response_with ps =
     \<lparr>candidates = Some [\<lparr>content = Some \<lparr>parts = Some ps\<rparr>\<rparr>], response_text = None\<rparr>"


definition text_response :: "string \<Rightarrow> gen_response" where
  "text_response t =
     \<lparr>candidates =
        Some [\<lparr>content = Some \<lparr>parts = Some [\<lparr>inlineData = None, part_text = Some t\<rparr>]\<rparr>\<rparr>],
      response_text = Some t\<rparr>"

text \<open>A service that answers every request with one response, and one that fails.\<close>

definition answering :: "gen_response \<Rightarrow> service" where
  "answering response =
     \<lparr>generateContent = (\<lambda>req. Inr response),
      generateImages = (\<lambda>req. Inr \<lparr>generatedImages = None\<rparr>)\<rparr>"

definition failing :: "js_error \<Rightarrow> service" where
  "failing e = \<lparr>generateContent = (\<lambda>req. Inl e), generateImages = (\<lambda>req. Inl e)\<rparr>"

text \<open>The response body of the specification's scenario.\<close>

definition example_body :: string where
  \<open>example_body =
     ''{"specifications":"...","usageInstructions":"...","compatibility":"...","maintenanceTips":"...","performanceMetrics":"...","warranty":"...","status":"..."}''\<close>

definition example_details :: json where
  "example_details =
     JObject
       [(''specifications'', JString ''...''), (''usageInstructions'', JString ''...''),
        (''compatibility'', JString ''...''), (''maintenanceTips'', JString ''...''),
        (''performanceMetrics'', JString ''...''), (''warranty'', JString ''...''),
        (''status'', JString ''...'')]"

text \<open>
  Views that are ready for a request, and the same views showing the result \<^verbatim>\<open>QUJD\<close> of
  an earlier request; the style copier also in its preview step, with a generated
  background.
\<close>

definition shoe_image :: ImageFile where
  "shoe_image = \<lparr>image_file = shoe_png, previewUrl = ''blob:shoe''\<rparr>"

definition studio_ready :: ps_state where
  "studio_ready = ps_initial\<lparr>ps_productImage := Some shoe_image\<rparr>"

definition studio_with_result :: ps_state where
  "studio_with_result = studio_ready\<lparr>ps_resultImage := Some ''QUJD''\<rparr>"

definition editor_ready :: ie_state where
  "editor_ready =
     \<lparr>ie_sourceImage = Some shoe_image, ie_prompt = ''Add a retro, vintage filter.'',
      ie_isLoading = False, ie_error = None, ie_resultImage = None\<rparr>"

definition editor_with_result :: ie_state where
  "editor_with_result = editor_ready\<lparr>ie_resultImage := Some ''QUJD''\<rparr>"

definition copier_ready :: sc_state where
  "copier_ready =
     sc_initial\<lparr>sc_sourceImages := [\<lparr>image_file = style_jpg, previewUrl = ''blob:style''\<rparr>],
                sc_targetImage := Some shoe_image\<rparr>"

definition copier_with_result :: sc_state where
  "copier_with_result =
     copier_ready\<lparr>sc_resultImage := Some ''QUJD'', sc_compositeStep := StepFinal\<rparr>"

definition copier_in_preview :: sc_state where
  "copier_in_preview =
     copier_ready\<lparr>sc_copyBackgroundStyleToggle := True, sc_generatedBackground := Some ''QUJD'',
                  sc_compositeStep := StepPreview\<rparr>"

text \<open>A storage that holds a preset with a blank before it, and an empty one.\<close>

definition empty_storage :: local_storage where
  "empty_storage = \<lparr>items = Map.empty, quota_exceeded = False\<rparr>"

definition blank_storage :: local_storage where
  \<open>blank_storage =
     \<lparr>items = [USER_PRESETS_STORAGE_KEY \<mapsto> ''[" x"]''], quota_exceeded = False\<rparr>\<close>

text \<open>A file whose media type holds a comma.\<close>

definition comma_file :: File where
  "comma_file = \<lparr>file_name = ''x.png'', file_type = ''image/png,image/png'',
                  file_bytes = [120], file_readable = True\<rparr>"

section \<open>Canvas dimensions: results\<close>

lemma Math_round_half_up: "Math_round x = round_half_up x"
proof -
  define f where "f = \<lfloor>x\<rfloor>"
  have fl: "of_int f \<le> x" "x < of_int f + 1"
    unfolding f_def by linarith+
  show ?thesis
  proof (cases "x - of_int f < 1 / 2")
    case True
    then have "\<lfloor>x + 1 / 2\<rfloor> = f"
      using fl by (intro floor_unique) auto
    with True show ?thesis
      by (simp add: Math_round_def round_half_up_def f_def)
  next
    case False
    then have "\<lfloor>x + 1 / 2\<rfloor> = f + 1"
      using fl by (intro floor_unique) auto
    with False show ?thesis
      by (simp add: Math_round_def round_half_up_def f_def)
  qed
qed

lemma ratio_numbers:
  "map Number_digits (split_on CHR '':'' (aspect_literal a)) = [ratio_w a, ratio_h a]"
  by (cases a) (simp_all add: Number_digits_def digit_value_def)

lemma getCanvasDimensions_spec: "getCanvasDimensions res a = spec_dimensions res a"
  by (simp add: getCanvasDimensions_def spec_dimensions_def ratio_numbers Math_round_half_up)

text \<open>
  Claim C4.  For each of the five aspect ratios and the resolution of each quality tier
  (Standard 1024, High 1500, Maximum 1500), \<^verbatim>\<open>getCanvasDimensions\<close> returns the
  resolution as width and the half-up rounding of resolution times h/w as height when
  w is at least h, and the half-up rounding of resolution times w/h as width and the
  resolution as height otherwise.
\<close>

theorem C4_canvas_dimensions:
  "resolution (QUALITY_PRESETS Standard) = 1024 \<and>
   resolution (QUALITY_PRESETS High) = 1500 \<and>
   resolution (QUALITY_PRESETS Maximum) = 1500 \<and>
   getCanvasDimensions (resolution (QUALITY_PRESETS q)) a =
     (if ratio_w a \<ge> ratio_h a
      then \<lparr>width = resolution (QUALITY_PRESETS q),
            height = round_half_up (resolution (QUALITY_PRESETS q) * ratio_h a / ratio_w a)\<rparr>
      else \<lparr>width = round_half_up (resolution (QUALITY_PRESETS q) * ratio_w a / ratio_h a),
            height = resolution (QUALITY_PRESETS q)\<rparr>)"
  using getCanvasDimensions_spec [of "resolution (QUALITY_PRESETS q)" a]
  by (simp add: spec_dimensions_def)

text \<open>The pixel sizes that the theorem gives for the tier High: 16:9 and 9:16.\<close>

lemma round_half_up_values:
  "round_half_up (3375 / 4) = 844" "round_half_up 576 = 576" "round_half_up 768 = 768"
  "round_half_up 1024 = 1024" "round_half_up 1125 = 1125" "round_half_up 1500 = 1500"
  by code_simp+

theorem C4_canvas_dimensions_witness:
  "getCanvasDimensions (resolution (QUALITY_PRESETS High)) R16_9 = \<lparr>width = 1500, height = 844\<rparr> \<and>
   getCanvasDimensions (resolution (QUALITY_PRESETS High)) R9_16 = \<lparr>width = 844, height = 1500\<rparr>"
  using C4_canvas_dimensions [of High R16_9] C4_canvas_dimensions [of High R9_16]
  by (simp add: round_half_up_values)

text \<open>The table of all sizes, by evaluation of the code.\<close>

lemma canvas_dimensions_table:
  "getCanvasDimensions 1024 R1_1 = \<lparr>width = 1024, height = 1024\<rparr>"
  "getCanvasDimensions 1024 R16_9 = \<lparr>width = 1024, height = 576\<rparr>"
  "getCanvasDimensions 1024 R9_16 = \<lparr>width = 576, height = 1024\<rparr>"
  "getCanvasDimensions 1024 R4_3 = \<lparr>width = 1024, height = 768\<rparr>"
  "getCanvasDimensions 1024 R3_4 = \<lparr>width = 768, height = 1024\<rparr>"
  "getCanvasDimensions 1500 R1_1 = \<lparr>width = 1500, height = 1500\<rparr>"
  "getCanvasDimensions 1500 R16_9 = \<lparr>width = 1500, height = 844\<rparr>"
  "getCanvasDimensions 1500 R9_16 = \<lparr>width = 844, height = 1500\<rparr>"
  "getCanvasDimensions 1500 R4_3 = \<lparr>width = 1500, height = 1125\<rparr>"
  "getCanvasDimensions 1500 R3_4 = \<lparr>width = 1125, height = 1500\<rparr>"
  by (simp_all add: getCanvasDimensions_spec spec_dimensions_def round_half_up_values)

section \<open>File reads and effects: basic facts\<close>

lemma split_on_no_sep: "sep \<notin> set s \<Longrightarrow> split_on sep s = [s]"
  by (induction s) auto

lemma split_on_append:
  "sep \<notin> set a \<Longrightarrow> split_on sep (a @ sep # b) = a # split_on sep b"
  by (induction a) auto

lemma split_on_nonempty: "split_on sep s \<noteq> []"
  by (induction s) (auto split: list.splits)

lemma split_on_sep_length: "sep \<in> set s \<Longrightarrow> length (split_on sep s) \<ge> 2"
proof (induction s)
  case Nil
  then show ?case by simp
next
  case (Cons c s)
  show ?case
  proof (cases "c = sep")
    case True
    then show ?thesis using split_on_nonempty [of sep s]
      by (cases "split_on sep s") auto
  next
    case False
    with Cons have "2 \<le> length (split_on sep s)" by simp
    with False show ?thesis by (auto split: list.splits)
  qed
qed

lemma split_dataURL: "length (split_on CHR '','' (readAsDataURL f)) \<ge> 2"
  by (rule split_on_sep_length) (simp add: readAsDataURL_def)

lemma fileToBase64_readable:
  "file_readable f \<Longrightarrow>
   fileToBase64 f = (Inr (hd (tl (split_on CHR '','' (readAsDataURL f)))), [ReadAsDataURL f])"
  using split_dataURL [of f]
  by (auto simp: fileToBase64_def split: list.splits)

lemma fileToGenerativePart_readable:
  "file_readable f \<Longrightarrow> fileToGenerativePart f = (Inr (encoded_part f), [ReadAsDataURL f])"
  by (simp add: fileToGenerativePart_def fileToBase64_readable io_bind_def io_return_def
      encoded_part_def getMimeType_def)

lemma fileToGenerativePart_unreadable:
  "\<not> file_readable f \<Longrightarrow>
   fileToGenerativePart f = (Inl (Thrown ''ProgressEvent''), [ReadAsDataURL f])"
  by (simp add: fileToGenerativePart_def fileToBase64_def io_bind_def)

lemma Promise_all_readable:
  "\<forall>f \<in> set fs. file_readable f \<Longrightarrow>
   Promise_all (map fileToGenerativePart fs) = (Inr (map encoded_part fs), map ReadAsDataURL fs)"
  by (induction fs) (simp_all add: fileToGenerativePart_readable)

lemma io_bind_Inr: "io_bind (Inr x, t) f = (fst (f x), t @ snd (f x))"
  by (simp add: io_bind_def split: prod.splits)

lemma io_bind_Inl: "io_bind (Inl e, t) f = (Inl e, t)"
  by (simp add: io_bind_def)

lemma io_catch_rethrow:
  "io_catch m (rethrow pre unk) = (map_sum (wrapped pre unk) id (fst m), snd m)"
  by (cases m, cases "fst m") (simp_all add: io_catch_def rethrow_def io_throw_def)

lemma return_inlineData_eq:
  "return_inlineData response message = (image_or [] message response, [])"
  by (simp add: return_inlineData_def image_or_def firstPart_of_def parts_missing_def
      first_part_def response_parts_def io_throw_def io_return_def io_bind_def
      split: option.splits list.splits)

lemma ask_image:
  "io_bind (call_generateContent ai req) (\<lambda>response. return_inlineData response message)
     = (answer_image ai req message, [GenerateContent req])"
  by (simp add: io_bind_def call_generateContent_def return_inlineData_eq answer_image_def
      split: sum.splits)


section \<open>The image operations, files read\<close>

lemma compositeProductImage_run:
  assumes "file_readable f"
  shows "compositeProductImage ai f bg tr ar =
    (answer_image ai (composite_request f bg tr ar) no_image_message,
     [ReadAsDataURL f, GenerateContent (composite_request f bg tr ar)])"
  using assms
  by (simp add: compositeProductImage_def fileToGenerativePart_readable io_bind_Inr ask_image
      Let_def composite_request_def)

lemma editImageWithPrompt_run:
  assumes "file_readable f"
  shows "editImageWithPrompt ai f p =
    (answer_image ai (edit_request f p) no_image_message,
     [ReadAsDataURL f, GenerateContent (edit_request f p)])"
  using assms
  by (simp add: editImageWithPrompt_def fileToGenerativePart_readable io_bind_Inr ask_image
      Let_def edit_request_def)

lemma copyProductStyle_try_run:
  assumes "\<forall>g \<in> set fs. file_readable g" "file_readable f"
  shows "copyProductStyle_try ai fs f so =
    (answer_image ai (style_request fs f so) style_no_image_message,
     map ReadAsDataURL fs @ [ReadAsDataURL f, GenerateContent (style_request fs f so)])"
  using assms
  by (simp add: copyProductStyle_try_def Promise_all_readable fileToGenerativePart_readable
      io_bind_Inr ask_image Let_def style_request_def)

lemma copyProductStyle_selected:
  assumes "opt_copyProductStyle so \<or> opt_copyBackgroundStyle so \<or> opt_isTransparent so"
  shows "copyProductStyle ai fs f so =
    io_catch (copyProductStyle_try ai fs f so)
      (rethrow ''Image processing failed: '' ''An unknown network or API error occurred.'')"
proof -
  have "\<not> (\<not> opt_copyProductStyle so \<and> \<not> opt_copyBackgroundStyle so \<and> \<not> opt_isTransparent so)"
    using assms by blast
  then show ?thesis
    unfolding copyProductStyle_def by (rule if_not_P)
qed

lemma generateStyledBackground_try_run:
  assumes "\<forall>g \<in> set fs. file_readable g"
  shows "generateStyledBackground_try ai fs ap =
    (answer_image ai (background_request fs ap) background_no_image_message,
     map ReadAsDataURL fs @ [GenerateContent (background_request fs ap)])"
  using assms
  by (simp add: generateStyledBackground_try_def Promise_all_readable io_bind_Inr ask_image
      Let_def background_request_def)


section \<open>Invalid selection\<close>

text \<open>
  Claim C6.  Called with \<^verbatim>\<open>copyProductStyle\<close>, \<^verbatim>\<open>copyBackgroundStyle\<close> and
  \<^verbatim>\<open>isTransparent\<close> all false, \<^verbatim>\<open>copyProductStyle\<close> fails with the invalid-selection
  error, and it has started no file read and sent no request: its list of effects is
  empty, whatever the service and the files are.
\<close>

theorem C6_invalid_selection:
  assumes "\<not> opt_copyProductStyle options"
    and "\<not> opt_copyBackgroundStyle options"
    and "\<not> opt_isTransparent options"
  shows "copyProductStyle ai sourceImages targetImage options =
           (Inl (Error invalid_selection_message), [])"
  using assms by (simp add: copyProductStyle_def io_throw_def)

text \<open>
  A service that would answer with an image, two readable files, and no toggle set: the
  operation fails before it reads a file.
\<close>

theorem C6_invalid_selection_witness:
  "copyProductStyle
     \<lparr>generateContent = (\<lambda>req. Inr \<lparr>candidates = Some [\<lparr>content = Some \<lparr>parts =
          Some [\<lparr>inlineData = Some \<lparr>data = Some ''QUJD'', mimeType = Some ''image/png''\<rparr>,
                 part_text = None\<rparr>]\<rparr>\<rparr>],
          response_text = None\<rparr>),
      generateImages = (\<lambda>req. Inl (Error ''unused''))\<rparr>
     [\<lparr>file_name = ''style.png'', file_type = ''image/png'', file_bytes = [1, 2, 3],
       file_readable = True\<rparr>]
     \<lparr>file_name = ''target.png'', file_type = ''image/png'', file_bytes = [4, 5],
      file_readable = True\<rparr>
     \<lparr>opt_copyProductStyle = False, opt_copyBackgroundStyle = False, opt_isTransparent = False,
      opt_prompt = None\<rparr>
   = (Inl (Error ''At least one copy option or transparent background must be selected.''), [])"
  by (rule C6_invalid_selection [unfolded invalid_selection_message_def]) simp_all

section \<open>The prompt of the composite operation\<close>

text \<open>
  The prompt for the ratio 16:9, an opaque background and the default background text,
  cut at the headings of its steps, at the quoted background text and at the canvas
  phrase.
\<close>

lemma composite_prompt_steps:
  \<open>\<exists>g0 g1 g2 g3 g4 g5 g6 g7.
     composite_prompt ''A clean, white studio background with soft, diffused lighting.'' False R16_9 =
         g0 @ ''1.  **Isolate Product:**'' @
         g1 @ ''2.  **Create Background:**'' @
         g2 @ ''"A clean, white studio background with soft, diffused lighting."'' @
         g3 @ ''3.  **Composite:**'' @
         g4 @ ''4.  **Integrate:**'' @
         g5 @ ''5.  **Add Shadow:**'' @
         g6 @ ''1500 pixel wide landscape canvas with a 16:9 aspect ratio'' @ g7\<close>
  apply (rule exI [where x = \<open>''You are a world-class product photographer and retoucher. Your task is to perform a professional product photo composite.
        ''\<close>])
  apply (rule exI [where x = \<open>'' Perfectly isolate the main product from the provided image. The mask must be flawless with clean edges and no halos.
        ''\<close>])
  apply (rule exI [where x = \<open>'' Generate a new, photorealistic background based on this description: ''\<close>])
  apply (rule exI [where x = \<open>''. The background should be high-quality, whether it's a studio or lifestyle setting.
        ''\<close>])
  apply (rule exI [where x = \<open>'' Place the isolated product onto the new background.
        ''\<close>])
  apply (rule exI [where x = \<open>'' This is critical. Analyze the lighting in the new background and realistically adjust the product's lighting, shadows, and highlights to match the scene perfectly. The product's color grading must be harmonized with the background.
        ''\<close>])
  apply (rule exI [where x = \<open>'' Create a natural, soft contact shadow underneath the product to ground it in the scene. The shadow must be consistent with the direction and softness of the main light source.
        6.  **Final Output:** The final image must be a ''\<close>])
  apply (rule exI [where x = \<open>''. Center the product within this canvas, leaving approximately 10% padding on all sides. Preserve all original texture and fine details of the product. The final result should look like a real, professionally shot photograph.''\<close>])
  apply (simp add: composite_prompt_def composite_prompt_scene_def)
  done

text \<open>
  Claim C8.  For the aspect ratio 16:9, \<^verbatim>\<open>isTransparent\<close> false and the background text
  "A clean, white studio background with soft, diffused lighting.", the composite
  operation reads the product image and sends one request whose parts are the encoded
  image and a text part; the text holds, in this order, the headings of the five steps
  (isolate the product, create the background from the quoted description, composite,
  integrate, add the shadow) and then the canvas phrase "1500 pixel wide landscape canvas
  with a 16:9 aspect ratio".
\<close>

theorem C8_composite_prompt:
  assumes "file_readable f"
  shows
  \<open>\<exists>g0 g1 g2 g3 g4 g5 g6 g7 req.
     snd (compositeProductImage ai f
            ''A clean, white studio background with soft, diffused lighting.'' False R16_9)
       = [ReadAsDataURL f, GenerateContent req] \<and>
     req_parts req =
       [encoded_part f,
        \<lparr>inlineData = None,
         part_text = Some
             (g0 @ ''1.  **Isolate Product:**'' @
              g1 @ ''2.  **Create Background:**'' @
              g2 @ ''"A clean, white studio background with soft, diffused lighting."'' @
              g3 @ ''3.  **Composite:**'' @
              g4 @ ''4.  **Integrate:**'' @
              g5 @ ''5.  **Add Shadow:**'' @
              g6 @ ''1500 pixel wide landscape canvas with a 16:9 aspect ratio'' @ g7)\<rparr>]\<close>
proof -
  let ?bg = "''A clean, white studio background with soft, diffused lighting.''"
  obtain g0 g1 g2 g3 g4 g5 g6 g7 where eq:
    \<open>composite_prompt ''A clean, white studio background with soft, diffused lighting.'' False R16_9 =
         g0 @ ''1.  **Isolate Product:**'' @
         g1 @ ''2.  **Create Background:**'' @
         g2 @ ''"A clean, white studio background with soft, diffused lighting."'' @
         g3 @ ''3.  **Composite:**'' @
         g4 @ ''4.  **Integrate:**'' @
         g5 @ ''5.  **Add Shadow:**'' @
         g6 @ ''1500 pixel wide landscape canvas with a 16:9 aspect ratio'' @ g7\<close>
    using composite_prompt_steps by blast
  have run: "snd (compositeProductImage ai f ?bg False R16_9)
      = [ReadAsDataURL f, GenerateContent (composite_request f ?bg False R16_9)]"
    using assms by (simp add: compositeProductImage_run)
  have sent: "req_parts (composite_request f ?bg False R16_9)
      = [encoded_part f,
         \<lparr>inlineData = None, part_text = Some (composite_prompt ?bg False R16_9)\<rparr>]"
    by (simp add: composite_request_def image_request_def textPart_of_def)
  show ?thesis
    apply (rule exI [of _ g0])
    apply (rule exI [of _ g1])
    apply (rule exI [of _ g2])
    apply (rule exI [of _ g3])
    apply (rule exI [of _ g4])
    apply (rule exI [of _ g5])
    apply (rule exI [of _ g6])
    apply (rule exI [of _ g7])
    apply (rule exI [of _ "composite_request f ?bg False R16_9"])
    apply (rule conjI)
     apply (rule run)
    apply (rule trans [OF sent])
    apply (simp only: eq)
    done
qed

theorem C8_composite_prompt_witness:
  \<open>\<exists>g0 g1 g2 g3 g4 g5 g6 g7 req.
     snd (compositeProductImage
            \<lparr>generateContent = (\<lambda>r. Inl (Error ''offline'')),
             generateImages = (\<lambda>r. Inl (Error ''offline''))\<rparr>
            \<lparr>file_name = ''shoe.png'', file_type = ''image/png'', file_bytes = [137, 80, 78, 71],
             file_readable = True\<rparr>
            ''A clean, white studio background with soft, diffused lighting.'' False R16_9)
       = [ReadAsDataURL \<lparr>file_name = ''shoe.png'', file_type = ''image/png'',
                          file_bytes = [137, 80, 78, 71], file_readable = True\<rparr>,
          GenerateContent req] \<and>
     req_parts req =
       [encoded_part \<lparr>file_name = ''shoe.png'', file_type = ''image/png'',
                      file_bytes = [137, 80, 78, 71], file_readable = True\<rparr>,
        \<lparr>inlineData = None,
         part_text = Some
             (g0 @ ''1.  **Isolate Product:**'' @
              g1 @ ''2.  **Create Background:**'' @
              g2 @ ''"A clean, white studio background with soft, diffused lighting."'' @
              g3 @ ''3.  **Composite:**'' @
              g4 @ ''4.  **Integrate:**'' @
              g5 @ ''5.  **Add Shadow:**'' @
              g6 @ ''1500 pixel wide landscape canvas with a 16:9 aspect ratio'' @ g7)\<rparr>]\<close>
  by (rule C8_composite_prompt) simp

section \<open>Which part of the response is the result\<close>









section \<open>Wrapping of failures\<close>

lemma read_details_caught:
  "io_catch (read_details response) (\<lambda>e. io_throw (Error malformed_message))
     = (details_or response, [])"
  by (simp add: read_details_def details_or_def io_catch_def io_throw_def io_return_def Let_def
      split: option.splits)

lemma generateProductDetails_try_run:
  assumes "file_readable f"
  shows "generateProductDetails_try ai f =
    ((case generateContent ai (product_details_request f) of
        Inl e \<Rightarrow> Inl e
      | Inr response \<Rightarrow> details_or response),
     [ReadAsDataURL f, GenerateContent (product_details_request f)])"
  using assms
  by (simp add: generateProductDetails_try_def fileToGenerativePart_readable io_bind_Inr
      Let_def product_details_request_def read_details_caught io_bind_def
      call_generateContent_def split: sum.splits)

lemma generateImage_run:
  "generateImage ai p ar go =
    ((case generateImages ai (generate_request p ar go) of
        Inl e \<Rightarrow> Inl e
      | Inr response \<Rightarrow>
          (case generatedImages response of
             Some (g # _) \<Rightarrow>
               (case gen_image g of
                  None \<Rightarrow> Inl (Error (cannot_read_message ''imageBytes''))
                | Some img \<Rightarrow> Inr (imageBytes img))
           | _ \<Rightarrow> Inl (Error no_image_message))),
     [GenerateImages (generate_request p ar go)])"
  by (simp add: generateImage_def generate_request_def io_bind_def call_generateImages_def
      io_throw_def io_return_def Let_def split: sum.splits option.splits list.splits)

lemma wrapped_Error_iff:
  assumes "\<And>m. unk \<noteq> pre @ m"
  shows "(wrapped pre unk e = Error (pre @ m)) = (e = Error m)"
  using assms by (cases e) auto

text \<open>
  Claim C3, amended.  \<^verbatim>\<open>copyProductStyle\<close> (once a toggle is set),
  \<^verbatim>\<open>generateStyledBackground\<close>, \<^verbatim>\<open>compositeProductWithBackground\<close> and
  \<^verbatim>\<open>generateProductDetails\<close> throw every failure of their \<^verbatim>\<open>try\<close> block again as an
  \<^verbatim>\<open>Error\<close> whose message is the task's prefix followed by the message of the failure, or
  the task's unknown-error message when the failure is not an \<^verbatim>\<open>Error\<close>.  The wrapped
  error is the prefixed message \<open>m\<close> only if the failure was the \<^verbatim>\<open>Error\<close> with message
  \<open>m\<close>: an error kind raised inside the block stays distinguishable.  The invalid-selection
  error is thrown before the block and keeps its message.  \<^verbatim>\<open>compositeProductImage\<close>,
  \<^verbatim>\<open>editImageWithPrompt\<close> and \<^verbatim>\<open>generateImage\<close> have no \<^verbatim>\<open>catch\<close>: a failed file read
  and a failure of the service reach the caller as they are.
\<close>

theorem C3_wrapping:
  "fst (copyProductStyle ai fs f so) =
     (if \<not> opt_copyProductStyle so \<and> \<not> opt_copyBackgroundStyle so \<and> \<not> opt_isTransparent so
      then Inl (Error invalid_selection_message)
      else map_sum (wrapped ''Image processing failed: ''
                      ''An unknown network or API error occurred.'') id
             (fst (copyProductStyle_try ai fs f so)))
   \<and> fst (generateStyledBackground ai fs ap) =
       map_sum (wrapped ''Background generation failed: ''
                  ''An unknown network or API error occurred while generating the background.'') id
         (fst (generateStyledBackground_try ai fs ap))
   \<and> fst (compositeProductWithBackground ai f b co) =
       map_sum (wrapped ''Image composition failed: ''
                  ''An unknown network or API error occurred during the final composition.'') id
         (fst (compositeProductWithBackground_try ai f b co))
   \<and> fst (generateProductDetails ai f) =
       map_sum (wrapped ''Failed to generate details: ''
                  ''An unknown network or API error occurred while generating product details.'') id
         (fst (generateProductDetails_try ai f))
   \<and> (wrapped ''Image processing failed: '' ''An unknown network or API error occurred.'' e
         = Error (''Image processing failed: '' @ m)) = (e = Error m)
   \<and> (wrapped ''Background generation failed: ''
         ''An unknown network or API error occurred while generating the background.'' e
         = Error (''Background generation failed: '' @ m)) = (e = Error m)
   \<and> (wrapped ''Image composition failed: ''
         ''An unknown network or API error occurred during the final composition.'' e
         = Error (''Image composition failed: '' @ m)) = (e = Error m)
   \<and> (wrapped ''Failed to generate details: ''
         ''An unknown network or API error occurred while generating product details.'' e
         = Error (''Failed to generate details: '' @ m)) = (e = Error m)
   \<and> fst (compositeProductImage (failing e) f bg tr ar) =
       Inl (if file_readable f then e else Thrown ''ProgressEvent'')
   \<and> fst (editImageWithPrompt (failing e) f p) =
       Inl (if file_readable f then e else Thrown ''ProgressEvent'')
   \<and> fst (generateImage (failing e) p ar go) = Inl e"
proof -
  have 1: "fst (copyProductStyle ai fs f so) =
     (if \<not> opt_copyProductStyle so \<and> \<not> opt_copyBackgroundStyle so \<and> \<not> opt_isTransparent so
      then Inl (Error invalid_selection_message)
      else map_sum (wrapped ''Image processing failed: ''
                      ''An unknown network or API error occurred.'') id
             (fst (copyProductStyle_try ai fs f so)))"
    by (simp add: copyProductStyle_def io_catch_rethrow io_throw_def)
  have 2: "fst (generateStyledBackground ai fs ap) =
       map_sum (wrapped ''Background generation failed: ''
                  ''An unknown network or API error occurred while generating the background.'') id
         (fst (generateStyledBackground_try ai fs ap))"
    by (simp add: generateStyledBackground_def io_catch_rethrow)
  have 3: "fst (compositeProductWithBackground ai f b co) =
       map_sum (wrapped ''Image composition failed: ''
                  ''An unknown network or API error occurred during the final composition.'') id
         (fst (compositeProductWithBackground_try ai f b co))"
    by (simp add: compositeProductWithBackground_def io_catch_rethrow)
  have 4: "fst (generateProductDetails ai f) =
       map_sum (wrapped ''Failed to generate details: ''
                  ''An unknown network or API error occurred while generating product details.'') id
         (fst (generateProductDetails_try ai f))"
    by (simp add: generateProductDetails_def io_catch_rethrow)
  have 5: "(wrapped ''Image processing failed: '' ''An unknown network or API error occurred.'' e
         = Error (''Image processing failed: '' @ m)) = (e = Error m)"
    by (rule wrapped_Error_iff) simp
  have 6: "(wrapped ''Background generation failed: ''
         ''An unknown network or API error occurred while generating the background.'' e
         = Error (''Background generation failed: '' @ m)) = (e = Error m)"
    by (rule wrapped_Error_iff) simp
  have 7: "(wrapped ''Image composition failed: ''
         ''An unknown network or API error occurred during the final composition.'' e
         = Error (''Image composition failed: '' @ m)) = (e = Error m)"
    by (rule wrapped_Error_iff) simp
  have 8: "(wrapped ''Failed to generate details: ''
         ''An unknown network or API error occurred while generating product details.'' e
         = Error (''Failed to generate details: '' @ m)) = (e = Error m)"
    by (rule wrapped_Error_iff) simp
  have 9: "fst (compositeProductImage (failing e) f bg tr ar) =
       Inl (if file_readable f then e else Thrown ''ProgressEvent'')"
  proof (cases "file_readable f")
    case True
    then show ?thesis
      by (simp add: compositeProductImage_run answer_image_def failing_def)
  next
    case False
    then show ?thesis
      by (simp add: compositeProductImage_def fileToGenerativePart_unreadable io_bind_Inl)
  qed
  have 10: "fst (editImageWithPrompt (failing e) f p) =
       Inl (if file_readable f then e else Thrown ''ProgressEvent'')"
  proof (cases "file_readable f")
    case True
    then show ?thesis
      by (simp add: editImageWithPrompt_run answer_image_def failing_def)
  next
    case False
    then show ?thesis
      by (simp add: editImageWithPrompt_def fileToGenerativePart_unreadable io_bind_Inl)
  qed
  have 11: "fst (generateImage (failing e) p ar go) = Inl e"
    by (simp add: generateImage_run failing_def)
  from 1 2 3 4 5 6 7 8 9 10 11 show ?thesis by blast
qed

text \<open>
  The service is down (\<open>Failed to fetch\<close>): the style copy reports the failure under its
  prefix, the composite operation passes it on unchanged.
\<close>

theorem C3_wrapping_witness:
  "fst (copyProductStyle (failing (Error ''Failed to fetch'')) [style_jpg] shoe_png
          \<lparr>opt_copyProductStyle = True, opt_copyBackgroundStyle = False,
           opt_isTransparent = False, opt_prompt = None\<rparr>)
     = Inl (Error ''Image processing failed: Failed to fetch'')
   \<and> fst (compositeProductImage (failing (Error ''Failed to fetch'')) shoe_png ''A beach''
          False R1_1) = Inl (Error ''Failed to fetch'')"
proof -
  have inner: "fst (copyProductStyle_try (failing (Error ''Failed to fetch'')) [style_jpg] shoe_png
      \<lparr>opt_copyProductStyle = True, opt_copyBackgroundStyle = False,
       opt_isTransparent = False, opt_prompt = None\<rparr>) = Inl (Error ''Failed to fetch'')"
    by (simp add: copyProductStyle_try_run shoe_png_def style_jpg_def answer_image_def
        failing_def)
  have readable: "file_readable shoe_png"
    by (simp add: shoe_png_def)
  show ?thesis
    using C3_wrapping [where ai = "failing (Error ''Failed to fetch'')" and fs = "[style_jpg]"
        and f = shoe_png and e = "Error ''Failed to fetch''" and bg = "''A beach''"
        and tr = False and ar = R1_1
        and so = "\<lparr>opt_copyProductStyle = True, opt_copyBackgroundStyle = False,
          opt_isTransparent = False, opt_prompt = None\<rparr>"]
    by (simp add: inner readable)
qed

text \<open>
  The claim as stated fails for the operations without a \<^verbatim>\<open>catch\<close>: the failure of the
  service and the event of a failed file read reach the caller of
  \<^verbatim>\<open>compositeProductImage\<close> as they were thrown, the latter not even an \<^verbatim>\<open>Error\<close>.
\<close>

theorem C3_unwrapped_counterexample:
  "fst (compositeProductImage (failing (Error ''Failed to fetch'')) shoe_png ''A beach''
          False R1_1) = Inl (Error ''Failed to fetch'')
   \<and> fst (compositeProductImage (answering (response_with [image_part]))
          (shoe_png\<lparr>file_readable := False\<rparr>) ''A beach'' False R1_1)
        = Inl (Thrown ''ProgressEvent'')
   \<and> \<not> instanceof_Error (Thrown ''ProgressEvent'')"
proof -
  have "fst (compositeProductImage (failing (Error ''Failed to fetch'')) shoe_png ''A beach''
          False R1_1) = Inl (Error ''Failed to fetch'')"
    by (simp add: compositeProductImage_run answer_image_def failing_def shoe_png_def)
  moreover have "fst (compositeProductImage (answering (response_with [image_part]))
          (shoe_png\<lparr>file_readable := False\<rparr>) ''A beach'' False R1_1)
        = Inl (Thrown ''ProgressEvent'')"
    by (simp add: compositeProductImage_def fileToGenerativePart_unreadable io_bind_Inl)
  ultimately show ?thesis by simp
qed

section \<open>Trimming\<close>

text \<open>The bytes of the white-space characters.\<close>

lemma white_space_bytes:
  "map utf8 white_space_code_points =
     [[CHR 0x09], [CHR 0x0A], [CHR 0x0B], [CHR 0x0C], [CHR 0x0D], [CHR 0x20],
      [CHR 0xC2, CHR 0xA0], [CHR 0xE1, CHR 0x9A, CHR 0x80],
      [CHR 0xE2, CHR 0x80, CHR 0x80], [CHR 0xE2, CHR 0x80, CHR 0x81],
      [CHR 0xE2, CHR 0x80, CHR 0x82], [CHR 0xE2, CHR 0x80, CHR 0x83],
      [CHR 0xE2, CHR 0x80, CHR 0x84], [CHR 0xE2, CHR 0x80, CHR 0x85],
      [CHR 0xE2, CHR 0x80, CHR 0x86], [CHR 0xE2, CHR 0x80, CHR 0x87],
      [CHR 0xE2, CHR 0x80, CHR 0x88], [CHR 0xE2, CHR 0x80, CHR 0x89],
      [CHR 0xE2, CHR 0x80, CHR 0x8A],
      [CHR 0xE2, CHR 0x80, CHR 0xA8], [CHR 0xE2, CHR 0x80, CHR 0xA9],
      [CHR 0xE2, CHR 0x80, CHR 0xAF], [CHR 0xE2, CHR 0x81, CHR 0x9F],
      [CHR 0xE3, CHR 0x80, CHR 0x80], [CHR 0xEF, CHR 0xBB, CHR 0xBF]]"
  by (simp add: white_space_code_points_def utf8_def char_of_eq_iff)

lemmas trim_eval = trim_def trimStart.simps trimEnd.simps trailing_white_space.simps
  is_white_space_def white_space_bytes

lemma not_white_space_Nil: "\<not> is_white_space []"
  by (simp add: is_white_space_def white_space_bytes)

lemma leading_zero_iff:
  "leading_white_space s = 0
     \<longleftrightarrow> \<not> is_white_space (take 1 s) \<and> \<not> is_white_space (take 2 s) \<and> \<not> is_white_space (take 3 s)"
  by (cases s) (simp_all add: not_white_space_Nil)

lemma trailing_zero_iff:
  "trailing_white_space s = 0
     \<longleftrightarrow> \<not> is_white_space (drop (length s - 1) s) \<and> \<not> is_white_space (drop (length s - 2) s)
         \<and> \<not> is_white_space (drop (length s - 3) s)"
  by (simp add: trailing_white_space.simps not_white_space_Nil)

lemma trimStart_fixed: "leading_white_space s = 0 \<Longrightarrow> trimStart s = s"
  by (simp add: trimStart.simps)

lemma trimEnd_fixed: "trailing_white_space s = 0 \<Longrightarrow> trimEnd s = s"
  by (simp add: trimEnd.simps)

lemma leading_trimStart: "leading_white_space (trimStart s) = 0"
  by (induction s rule: trimStart.induct) (subst trimStart.simps, simp)

lemma trailing_trimEnd: "trailing_white_space (trimEnd s) = 0"
  by (induction s rule: trimEnd.induct) (subst trimEnd.simps, simp)

lemma trimEnd_take: "\<exists>n. trimEnd s = take n s"
proof (induction s rule: trimEnd.induct)
  case (1 s)
  show ?case
  proof (cases "trailing_white_space s = 0")
    case True
    then have "trimEnd s = take (length s) s" by (simp add: trimEnd_fixed)
    then show ?thesis by blast
  next
    case False
    with 1 obtain n where "trimEnd (take (length s - trailing_white_space s) s)
        = take n (take (length s - trailing_white_space s) s)"
      by blast
    with False have "trimEnd s = take (min n (length s - trailing_white_space s)) s"
      by (subst trimEnd.simps) simp
    then show ?thesis by blast
  qed
qed

lemma leading_take:
  assumes "leading_white_space s = 0"
  shows "leading_white_space (take n s) = 0"
proof -
  have "\<not> is_white_space (take k (take n s))" if "k \<in> {1, 2, 3}" for k
  proof -
    have "min k n = 0 \<or> min k n = 1 \<or> min k n = 2 \<or> min k n = 3"
      using that by auto
    then have "\<not> is_white_space (take (min k n) s)"
      using assms by (auto simp: leading_zero_iff not_white_space_Nil)
    then show ?thesis by simp
  qed
  then show ?thesis
    by (simp add: leading_zero_iff)
qed

text \<open>Trimming a trimmed string changes nothing.\<close>

lemma trim_trim: "trim (trim s) = trim s"
proof -
  obtain n where n: "trimEnd (trimStart s) = take n (trimStart s)"
    using trimEnd_take by blast
  have "leading_white_space (trim s) = 0"
    unfolding trim_def n by (rule leading_take) (rule leading_trimStart)
  then have "trimStart (trim s) = trim s"
    by (rule trimStart_fixed)
  moreover have "trimEnd (trim s) = trim s"
    unfolding trim_def by (rule trimEnd_fixed) (rule trailing_trimEnd)
  ultimately show ?thesis
    by (simp add: trim_def)
qed

text \<open>
  A string that begins and ends with a graphic ASCII character is its own trimmed form:
  every byte of a white-space character is below \<open>!\<close> or above \<open>~\<close>.
\<close>

lemma white_space_not_graphic:
  assumes "is_white_space w"
  shows "\<not> is_graphic (hd w) \<and> \<not> is_graphic (last w)"
  using assms unfolding is_white_space_def white_space_bytes
  by (auto simp: is_graphic_def)

lemma trim_graphic:
  assumes "s \<noteq> []" and "is_graphic (hd s)" and "is_graphic (last s)"
  shows "trim s = s"
proof -
  have "\<not> is_white_space (take k s)" if "k \<noteq> 0" for k
  proof
    assume "is_white_space (take k s)"
    then have "\<not> is_graphic (hd (take k s))"
      using white_space_not_graphic by blast
    moreover have "hd (take k s) = hd s"
      using that assms(1) by (cases s; cases k) simp_all
    ultimately show False using assms(2) by simp
  qed
  then have 1: "leading_white_space s = 0"
    by (simp add: leading_zero_iff)
  have "\<not> is_white_space (drop (length s - k) s)" if "k \<noteq> 0" for k
  proof
    assume "is_white_space (drop (length s - k) s)"
    then have "\<not> is_graphic (last (drop (length s - k) s))"
      using white_space_not_graphic by blast
    moreover have "last (drop (length s - k) s) = last s"
      using that assms(1) by (simp add: last_drop)
    ultimately show False using assms(3) by simp
  qed
  then have 2: "trailing_white_space s = 0"
    by (simp add: trailing_zero_iff)
  from 1 2 show ?thesis
    by (simp add: trim_def trimStart_fixed trimEnd_fixed)
qed

text \<open>A blank, a no-break space and a byte order mark are removed; a blank inside stays.\<close>

lemma trim_examples:
  "trim [] = []"
  "trim '' x'' = ''x''"
  "trim ''  On my desk '' = ''On my desk''"
  "trim ([CHR 0xC2, CHR 0xA0] @ ''{}'' @ [CHR 0xEF, CHR 0xBB, CHR 0xBF, CHR 0x0A]) = ''{}''"
  by (simp_all add: trim_eval)

section \<open>The bound of the JSON descent\<close>

text \<open>
  Every reader takes at least one character, and the descent reads a value with a bound of
  as many steps as the value has characters: the bound that \<^verbatim>\<open>JSON_parse\<close> gives is
  enough, and a text that it rejects is rejected with every bound.
\<close>

lemma skip_ws_length: "length (skip_ws s) \<le> length s"
  by (simp add: skip_ws_def length_dropWhile_le)

lemma parse_units_length:
  "parse_units s = Some (u, r) \<Longrightarrow> length r < length s"
proof (induction s arbitrary: u r rule: parse_units.induct)
  case 1
  then show ?case by simp
next
  case (2 c cs)
  then show ?case
    by (fastforce split: if_splits list.splits option.splits)
qed

lemma parse_string_length:
  "parse_string s = Some (k, r) \<Longrightarrow> length r < length s"
  by (auto simp: parse_string_def dest: parse_units_length)

lemma parse_number_length:
  assumes "parse_number s = Some (lx, r)"
  shows "length r < length s"
proof -
  define s1 where "s1 = drop (length (takeWhile (\<lambda>c. c = CHR ''-'') (take 1 s))) s"
  define s2 where "s2 = dropWhile is_digit s1"
  have "takeWhile is_digit s1 \<noteq> []"
    using assms by (auto simp: parse_number_def Let_def s1_def split: if_splits)
  moreover have "length (takeWhile is_digit s1) + length s2 = length s1"
    unfolding s2_def length_append [symmetric] by simp
  ultimately have "length s2 < length s1"
    by (cases "takeWhile is_digit s1") simp_all
  moreover have "length s1 \<le> length s"
    by (simp add: s1_def)
  moreover have "length r \<le> length s2"
    using assms by (auto simp: parse_number_def Let_def s1_def s2_def split: if_splits)
  ultimately show ?thesis by simp
qed

lemma skip_ws_Cons: "skip_ws s = c # cs \<Longrightarrow> length cs < length s"
  using skip_ws_length [of s] by simp

lemma map_option_mono:
  assumes "\<And>y. p = Some y \<Longrightarrow> q = Some y" and "map_option f p = Some x"
  shows "map_option f q = Some x"
  using assms by (cases p) simp_all

lemma value_step_mono:
  assumes "value_step e m s = Some x"
    and "\<And>t y. e t = Some y \<Longrightarrow> e' t = Some y"
    and "\<And>t y. m t = Some y \<Longrightarrow> m' t = Some y"
  shows "value_step e' m' s = Some x"
  using assms(1) unfolding value_step_def
  by (auto simp del: startsWith.simps split: list.splits if_splits dest!: assms(2,3))

lemma elements_step_mono:
  assumes "elements_step v e s = Some x"
    and "\<And>t y. v t = Some y \<Longrightarrow> v' t = Some y"
    and "\<And>t y. e t = Some y \<Longrightarrow> e' t = Some y"
  shows "elements_step v' e' s = Some x"
proof -
  obtain a r where a: "v s = Some (a, r)"
    using assms(1) by (auto simp: elements_step_def split: option.splits)
  then have a': "v' s = Some (a, r)" by (rule assms(2))
  show ?thesis
    using assms(1) unfolding elements_step_def a a'
    by (auto simp del: map_option_eq_Some split: list.splits if_splits
        elim: map_option_mono [rotated] intro: assms(3))
qed

lemma members_step_mono:
  assumes "members_step v m s = Some x"
    and "\<And>t y. v t = Some y \<Longrightarrow> v' t = Some y"
    and "\<And>t y. m t = Some y \<Longrightarrow> m' t = Some y"
  shows "members_step v' m' s = Some x"
proof -
  obtain c cs where c: "skip_ws s = c # cs" "c = CHR 0x22"
    using assms(1) by (auto simp: members_step_def split: list.splits if_splits)
  obtain k r where k: "parse_string cs = Some (k, r)"
    using assms(1) c by (auto simp: members_step_def split: option.splits)
  obtain d ds where d: "skip_ws r = d # ds" "d = CHR '':''"
    using assms(1) c k by (auto simp: members_step_def split: list.splits if_splits)
  obtain a r' where a: "v ds = Some (a, r')"
    using assms(1) c k d by (auto simp: members_step_def split: option.splits)
  then have a': "v' ds = Some (a, r')" by (rule assms(2))
  show ?thesis
    using assms(1)
    by (auto simp add: members_step_def c k d a a' simp del: map_option_eq_Some
        split: list.splits if_splits elim: map_option_mono [rotated] intro: assms(3))
qed

lemma parse_value_Suc:
  "parse_value (Suc n) = value_step (parse_elements n) (parse_members n)"
  by (rule ext) (rule parse_value.simps(2))

lemma parse_elements_Suc:
  "parse_elements (Suc n) = elements_step (parse_value n) (parse_elements n)"
  by (rule ext) (rule parse_elements.simps(2))

lemma parse_members_Suc:
  "parse_members (Suc n) = members_step (parse_value n) (parse_members n)"
  by (rule ext) (rule parse_members.simps(2))

lemma fuel_Suc:
  "(\<forall>s x. parse_value n s = Some x \<longrightarrow> parse_value (Suc n) s = Some x)
   \<and> (\<forall>s x. parse_elements n s = Some x \<longrightarrow> parse_elements (Suc n) s = Some x)
   \<and> (\<forall>s x. parse_members n s = Some x \<longrightarrow> parse_members (Suc n) s = Some x)"
proof (induction n)
  case 0
  show ?case by simp
next
  case (Suc n)
  then have IH: "\<And>s x. parse_value n s = Some x \<Longrightarrow> parse_value (Suc n) s = Some x"
    "\<And>s x. parse_elements n s = Some x \<Longrightarrow> parse_elements (Suc n) s = Some x"
    "\<And>s x. parse_members n s = Some x \<Longrightarrow> parse_members (Suc n) s = Some x"
    by blast+
  have v: "parse_value (Suc (Suc n)) s = Some x" if "parse_value (Suc n) s = Some x" for s x
  proof -
    from that have "value_step (parse_elements n) (parse_members n) s = Some x"
      by (simp only: parse_value_Suc)
    then have "value_step (parse_elements (Suc n)) (parse_members (Suc n)) s = Some x"
      by (rule value_step_mono) (erule IH)+
    then show ?thesis
      by (subst parse_value_Suc)
  qed
  have e: "parse_elements (Suc (Suc n)) s = Some x" if "parse_elements (Suc n) s = Some x" for s x
  proof -
    from that have "elements_step (parse_value n) (parse_elements n) s = Some x"
      by (simp only: parse_elements_Suc)
    then have "elements_step (parse_value (Suc n)) (parse_elements (Suc n)) s = Some x"
      by (rule elements_step_mono) (erule IH)+
    then show ?thesis
      by (subst parse_elements_Suc)
  qed
  have m: "parse_members (Suc (Suc n)) s = Some x" if "parse_members (Suc n) s = Some x" for s x
  proof -
    from that have "members_step (parse_value n) (parse_members n) s = Some x"
      by (simp only: parse_members_Suc)
    then have "members_step (parse_value (Suc n)) (parse_members (Suc n)) s = Some x"
      by (rule members_step_mono) (erule IH)+
    then show ?thesis
      by (subst parse_members_Suc)
  qed
  from v e m show ?case by blast
qed

lemma fuel_mono:
  assumes "n \<le> k"
  shows "parse_value n s = Some x \<Longrightarrow> parse_value k s = Some x"
    and "parse_elements n s = Some y \<Longrightarrow> parse_elements k s = Some y"
    and "parse_members n s = Some z \<Longrightarrow> parse_members k s = Some z"
proof -
  have "(\<forall>s x. parse_value n s = Some x \<longrightarrow> parse_value (n + j) s = Some x)
   \<and> (\<forall>s x. parse_elements n s = Some x \<longrightarrow> parse_elements (n + j) s = Some x)
   \<and> (\<forall>s x. parse_members n s = Some x \<longrightarrow> parse_members (n + j) s = Some x)" for j
  proof (induction j)
    case 0
    show ?case by simp
  next
    case (Suc j)
    with fuel_Suc [of "n + j"] show ?case
      unfolding add_Suc_right by blast
  qed
  from this [of "k - n"] assms
  have *: "(\<forall>s x. parse_value n s = Some x \<longrightarrow> parse_value k s = Some x)
   \<and> (\<forall>s x. parse_elements n s = Some x \<longrightarrow> parse_elements k s = Some x)
   \<and> (\<forall>s x. parse_members n s = Some x \<longrightarrow> parse_members k s = Some x)"
    by simp
  show "parse_value n s = Some x \<Longrightarrow> parse_value k s = Some x"
    using * by blast
  show "parse_elements n s = Some y \<Longrightarrow> parse_elements k s = Some y"
    using * by blast
  show "parse_members n s = Some z \<Longrightarrow> parse_members k s = Some z"
    using * by blast
qed

lemma value_step_length:
  assumes "value_step e m s = Some (v, r)"
    and "\<And>t y q. e t = Some (y, q) \<Longrightarrow> length q < length t"
    and "\<And>t y q. m t = Some (y, q) \<Longrightarrow> length q < length t"
  shows "length r < length s"
  using assms(1) unfolding value_step_def
  by (auto simp del: startsWith.simps split: list.splits if_splits
      dest!: assms(2,3) skip_ws_Cons parse_string_length parse_number_length)

lemma value_step_fuel:
  assumes "value_step e m s = Some (v, r)"
    and "\<And>t y. length t < length s \<Longrightarrow> e t = Some (y, r) \<Longrightarrow> e' t = Some (y, r)"
    and "\<And>t y. length t < length s \<Longrightarrow> m t = Some (y, r) \<Longrightarrow> m' t = Some (y, r)"
  shows "value_step e' m' s = Some (v, r)"
proof (cases "skip_ws s")
  case Nil
  with assms(1) show ?thesis by (simp add: value_step_def)
next
  case (Cons c cs)
  show ?thesis
  proof (cases "skip_ws cs")
    case Nil
    with Cons assms(1) show ?thesis
      by (simp add: value_step_def del: startsWith.simps split: if_splits)
  next
    case inner: (Cons d ds)
    have "length (d # ds) < length s"
      using skip_ws_Cons [OF Cons] skip_ws_Cons [OF inner] by simp
    then have "e (d # ds) = Some (y, r) \<Longrightarrow> e' (d # ds) = Some (y, r)"
      and "m (d # ds) = Some (y', r) \<Longrightarrow> m' (d # ds) = Some (y', r)" for y y'
      using assms(2,3) by blast+
    then show ?thesis
      using Cons inner assms(1)
      by (auto simp add: value_step_def simp del: startsWith.simps split: if_splits)
  qed
qed

lemma elements_step_length:
  assumes "elements_step val e s = Some (vs, r)"
    and "\<And>t y q. val t = Some (y, q) \<Longrightarrow> length q < length t"
    and "\<And>t y q. e t = Some (y, q) \<Longrightarrow> length q < length t"
  shows "length r < length s"
proof -
  obtain a q where a: "val s = Some (a, q)"
    using assms(1) by (auto simp: elements_step_def split: option.splits)
  obtain c cs where c: "skip_ws q = c # cs"
    using assms(1) a by (auto simp: elements_step_def split: list.splits)
  have "length cs < length s"
    using assms(2) [OF a] skip_ws_Cons [OF c] by simp
  moreover have "length r \<le> length cs"
    using assms(1) a c by (auto simp: elements_step_def split: if_splits dest!: assms(3))
  ultimately show ?thesis by simp
qed

lemma elements_step_fuel:
  assumes "elements_step val e s = Some (vs, r)"
    and "\<And>t y q. val t = Some (y, q) \<Longrightarrow> length q < length t"
    and "\<And>t y q. e t = Some (y, q) \<Longrightarrow> length q < length t"
    and "\<And>t y q. length t \<le> length s \<Longrightarrow> length r < length q \<Longrightarrow> val t = Some (y, q)
           \<Longrightarrow> val' t = Some (y, q)"
    and "\<And>t y. length t < length s \<Longrightarrow> e t = Some (y, r) \<Longrightarrow> e' t = Some (y, r)"
  shows "elements_step val' e' s = Some (vs, r)"
proof -
  obtain a q where a: "val s = Some (a, q)"
    using assms(1) by (auto simp: elements_step_def split: option.splits)
  obtain c cs where c: "skip_ws q = c # cs"
    using assms(1) a by (auto simp: elements_step_def split: list.splits)
  have cs: "length cs < length q" "length q < length s"
    using assms(2) [OF a] skip_ws_Cons [OF c] by simp_all
  have r: "length r \<le> length cs"
    using assms(1) a c by (auto simp: elements_step_def split: if_splits dest!: assms(3))
  have a': "val' s = Some (a, q)"
    using cs r by (intro assms(4) a) simp_all
  have "e cs = Some (y, r) \<Longrightarrow> e' cs = Some (y, r)" for y
    using cs by (intro assms(5)) simp_all
  then show ?thesis
    using assms(1) by (auto simp: elements_step_def a a' c split: if_splits)
qed

lemma members_step_length:
  assumes "members_step val m s = Some (ms, r)"
    and "\<And>t y q. val t = Some (y, q) \<Longrightarrow> length q < length t"
    and "\<And>t y q. m t = Some (y, q) \<Longrightarrow> length q < length t"
  shows "length r < length s"
proof -
  obtain c cs where c: "skip_ws s = c # cs" "c = CHR 0x22"
    using assms(1) by (auto simp: members_step_def split: list.splits if_splits)
  obtain k q where k: "parse_string cs = Some (k, q)"
    using assms(1) c by (auto simp: members_step_def split: option.splits)
  obtain d ds where d: "skip_ws q = d # ds" "d = CHR '':''"
    using assms(1) c k by (auto simp: members_step_def split: list.splits if_splits)
  obtain a q' where a: "val ds = Some (a, q')"
    using assms(1) c k d by (auto simp: members_step_def split: option.splits)
  obtain e es where e: "skip_ws q' = e # es"
    using assms(1) c k d a by (auto simp: members_step_def split: list.splits)
  have "length es < length s"
    using skip_ws_Cons [OF c(1)] parse_string_length [OF k] skip_ws_Cons [OF d(1)]
      assms(2) [OF a] skip_ws_Cons [OF e]
    by simp
  moreover have "length r \<le> length es"
    using assms(1)
    by (auto simp: members_step_def c k d a e split: if_splits dest!: assms(3))
  ultimately show ?thesis by simp
qed

lemma members_step_fuel:
  assumes "members_step val m s = Some (ms, r)"
    and "\<And>t y q. val t = Some (y, q) \<Longrightarrow> length q < length t"
    and "\<And>t y q. m t = Some (y, q) \<Longrightarrow> length q < length t"
    and "\<And>t y q. length t \<le> length s \<Longrightarrow> length r < length q \<Longrightarrow> val t = Some (y, q)
           \<Longrightarrow> val' t = Some (y, q)"
    and "\<And>t y. length t < length s \<Longrightarrow> m t = Some (y, r) \<Longrightarrow> m' t = Some (y, r)"
  shows "members_step val' m' s = Some (ms, r)"
proof -
  obtain c cs where c: "skip_ws s = c # cs" "c = CHR 0x22"
    using assms(1) by (auto simp: members_step_def split: list.splits if_splits)
  obtain k q where k: "parse_string cs = Some (k, q)"
    using assms(1) c by (auto simp: members_step_def split: option.splits)
  obtain d ds where d: "skip_ws q = d # ds" "d = CHR '':''"
    using assms(1) c k by (auto simp: members_step_def split: list.splits if_splits)
  obtain a q' where a: "val ds = Some (a, q')"
    using assms(1) c k d by (auto simp: members_step_def split: option.splits)
  obtain e es where e: "skip_ws q' = e # es"
    using assms(1) c k d a by (auto simp: members_step_def split: list.splits)
  have len: "length ds < length s" "length es < length q'" "length q' < length ds"
    using skip_ws_Cons [OF c(1)] parse_string_length [OF k] skip_ws_Cons [OF d(1)]
      assms(2) [OF a] skip_ws_Cons [OF e]
    by simp_all
  have r: "length r \<le> length es"
    using assms(1)
    by (auto simp: members_step_def c k d a e split: if_splits dest!: assms(3))
  have a': "val' ds = Some (a, q')"
    using len r by (intro assms(4) a) simp_all
  have "m es = Some (y, r) \<Longrightarrow> m' es = Some (y, r)" for y
    using len by (intro assms(5)) simp_all
  then show ?thesis
    using assms(1) by (auto simp: members_step_def c k d a a' e split: if_splits)
qed

text \<open>
  A value that is read with some bound is read with the number of characters it takes as
  the bound.
\<close>

lemma fuel_bound:
  "(\<forall>s v r. parse_value n s = Some (v, r) \<longrightarrow>
       length r < length s \<and> parse_value (length s - length r) s = Some (v, r))
   \<and> (\<forall>s v r. parse_elements n s = Some (v, r) \<longrightarrow>
       length r < length s \<and> parse_elements (length s - length r) s = Some (v, r))
   \<and> (\<forall>s v r. parse_members n s = Some (v, r) \<longrightarrow>
       length r < length s \<and> parse_members (length s - length r) s = Some (v, r))"
proof (induction n)
  case 0
  show ?case by simp
next
  case (Suc n)
  then have len:
    "\<And>t y q. parse_value n t = Some (y, q) \<Longrightarrow> length q < length t"
    "\<And>t y q. parse_elements n t = Some (y, q) \<Longrightarrow> length q < length t"
    "\<And>t y q. parse_members n t = Some (y, q) \<Longrightarrow> length q < length t"
    by blast+
  from Suc have fuel:
    "\<And>t y q. parse_value n t = Some (y, q) \<Longrightarrow> parse_value (length t - length q) t = Some (y, q)"
    "\<And>t y q. parse_elements n t = Some (y, q)
       \<Longrightarrow> parse_elements (length t - length q) t = Some (y, q)"
    "\<And>t y q. parse_members n t = Some (y, q)
       \<Longrightarrow> parse_members (length t - length q) t = Some (y, q)"
    by blast+
  have v: "length r < length s \<and> parse_value (length s - length r) s = Some (v, r)"
    if "parse_value (Suc n) s = Some (v, r)" for s v r
  proof -
    from that have step: "value_step (parse_elements n) (parse_members n) s = Some (v, r)"
      by (simp only: parse_value_Suc)
    then have l: "length r < length s"
      by (rule value_step_length) (erule len)+
    define k where "k = length s - length r - 1"
    have "value_step (parse_elements k) (parse_members k) s = Some (v, r)"
      using step
    proof (rule value_step_fuel)
      fix t :: string and y
      assume "length t < length s"
      then have "length t - length r \<le> k" by (simp add: k_def)
      then show "parse_elements n t = Some (y, r) \<Longrightarrow> parse_elements k t = Some (y, r)"
        using fuel(2) fuel_mono(2) by blast
    next
      fix t :: string and y
      assume "length t < length s"
      then have "length t - length r \<le> k" by (simp add: k_def)
      then show "parse_members n t = Some (y, r) \<Longrightarrow> parse_members k t = Some (y, r)"
        using fuel(3) fuel_mono(3) by blast
    qed
    moreover have "length s - length r = Suc k"
      using l by (simp add: k_def)
    ultimately show ?thesis
      using l by (simp only: parse_value_Suc simp_thms)
  qed
  have e: "length r < length s \<and> parse_elements (length s - length r) s = Some (v, r)"
    if "parse_elements (Suc n) s = Some (v, r)" for s v r
  proof -
    from that have step: "elements_step (parse_value n) (parse_elements n) s = Some (v, r)"
      by (simp only: parse_elements_Suc)
    then have l: "length r < length s"
      by (rule elements_step_length) (erule len)+
    define k where "k = length s - length r - 1"
    have "elements_step (parse_value k) (parse_elements k) s = Some (v, r)"
      using step
    proof (rule elements_step_fuel)
      fix t q :: string and y
      assume "length t \<le> length s" "length r < length q"
      then have "length t - length q \<le> k" by (simp add: k_def)
      then show "parse_value n t = Some (y, q) \<Longrightarrow> parse_value k t = Some (y, q)"
        using fuel(1) fuel_mono(1) by blast
    next
      fix t :: string and y
      assume "length t < length s"
      then have "length t - length r \<le> k" by (simp add: k_def)
      then show "parse_elements n t = Some (y, r) \<Longrightarrow> parse_elements k t = Some (y, r)"
        using fuel(2) fuel_mono(2) by blast
    qed (erule len)+
    moreover have "length s - length r = Suc k"
      using l by (simp add: k_def)
    ultimately show ?thesis
      using l by (simp only: parse_elements_Suc simp_thms)
  qed
  have m: "length r < length s \<and> parse_members (length s - length r) s = Some (v, r)"
    if "parse_members (Suc n) s = Some (v, r)" for s v r
  proof -
    from that have step: "members_step (parse_value n) (parse_members n) s = Some (v, r)"
      by (simp only: parse_members_Suc)
    then have l: "length r < length s"
      by (rule members_step_length) (erule len)+
    define k where "k = length s - length r - 1"
    have "members_step (parse_value k) (parse_members k) s = Some (v, r)"
      using step
    proof (rule members_step_fuel)
      fix t q :: string and y
      assume "length t \<le> length s" "length r < length q"
      then have "length t - length q \<le> k" by (simp add: k_def)
      then show "parse_value n t = Some (y, q) \<Longrightarrow> parse_value k t = Some (y, q)"
        using fuel(1) fuel_mono(1) by blast
    next
      fix t :: string and y
      assume "length t < length s"
      then have "length t - length r \<le> k" by (simp add: k_def)
      then show "parse_members n t = Some (y, r) \<Longrightarrow> parse_members k t = Some (y, r)"
        using fuel(3) fuel_mono(3) by blast
    qed (erule len)+
    moreover have "length s - length r = Suc k"
      using l by (simp add: k_def)
    ultimately show ?thesis
      using l by (simp only: parse_members_Suc simp_thms)
  qed
  from v e m show ?case by blast
qed

text \<open>
  The bound that \<^verbatim>\<open>JSON_parse\<close> gives the descent loses nothing: a value that is read with
  any bound is read with that one.
\<close>

lemma fuel_enough:
  assumes "parse_value n s = Some (v, r)"
  shows "parse_value (Suc (length s)) s = Some (v, r)"
proof -
  have "parse_value (length s - length r) s = Some (v, r)"
    using assms fuel_bound [of n] by blast
  then show ?thesis
    by (rule fuel_mono(1) [rotated]) simp
qed

lemma JSON_parse_any_bound:
  assumes "parse_value n s = Some (v, r)"
  shows "JSON_parse s = (if skip_ws r = [] then Some v else None)"
  using fuel_enough [OF assms] by (simp add: JSON_parse_def)

section \<open>Product details\<close>

lemma fuel_numeral:
  "parse_value (numeral k) s = parse_value (Suc (pred_numeral k)) s"
  "parse_elements (numeral k) s = parse_elements (Suc (pred_numeral k)) s"
  "parse_members (numeral k) s = parse_members (Suc (pred_numeral k)) s"
  by (simp_all only: numeral_eq_Suc)

lemmas json_eval = JSON_parse_def skip_ws_def is_json_ws_def parse_string_def unescape_def
  object_of_def fuel_numeral value_step_def elements_step_def members_step_def

lemma parse_example_body: "JSON_parse example_body = Some example_details"
  by (simp add: json_eval example_body_def example_details_def)

lemma trim_example_body: "trim example_body = example_body"
  by (rule trim_graphic) (simp_all add: example_body_def is_graphic_def)

lemma trim_padded_body:
  "trim ([CHR 0xC2, CHR 0xA0] @ example_body @ [CHR 0x0A]) = example_body"
  by (simp add: trim_eval example_body_def)

lemma example_body_nonempty: "example_body \<noteq> []"
  by (simp add: example_body_def)

lemma example_details_shape: "has_details_shape example_details"
  by (simp add: has_details_shape_def details_required_def is_string_member_def
      example_details_def)

lemma parse_empty_object: \<open>JSON_parse ''{}'' = Some (JObject [])\<close>
  by (simp add: json_eval)

lemma generateProductDetails_run:
  assumes "file_readable f"
  shows "fst (generateProductDetails ai f) =
    map_sum (wrapped ''Failed to generate details: ''
               ''An unknown network or API error occurred while generating product details.'') id
      (case generateContent ai (product_details_request f) of
         Inl e \<Rightarrow> Inl e
       | Inr response \<Rightarrow> details_or response)"
  using assms
  by (simp add: generateProductDetails_def io_catch_rethrow generateProductDetails_try_run)

text \<open>
  Claim C9, amended.  When the image is read and the service answers,
  \<^verbatim>\<open>generateProductDetails\<close> returns the value that \<^verbatim>\<open>JSON.parse\<close> gives for the trimmed
  text of the response, as it is: for a body with the seven string fields, the object with
  these seven fields, verbatim.  It fails with the malformed-response error (under the
  prefix of the operation) when the response has no text, when the text is empty after
  trimming, and when the text is not JSON.  The shape of the parsed value is not
  checked.  (\<^verbatim>\<open>JSON_parse\<close> rejects a text only if the descent rejects it with every bound:
  lemma \<open>JSON_parse_any_bound\<close>.)
\<close>

theorem C9_product_details:
  assumes "file_readable f"
    and "generateContent ai (product_details_request f) = Inr response"
  shows "fst (generateProductDetails ai f) =
     (case response_text response of
        None \<Rightarrow> Inl (Error (''Failed to generate details: '' @ malformed_message))
      | Some t \<Rightarrow>
          if trim t = [] then Inl (Error (''Failed to generate details: '' @ malformed_message))
          else (case JSON_parse (trim t) of
                  None \<Rightarrow> Inl (Error (''Failed to generate details: '' @ malformed_message))
                | Some v \<Rightarrow> Inr v))"
  using assms
  by (simp add: generateProductDetails_run details_or_def split: option.splits)

text \<open>
  The scenario of the specification: the body with the seven fields gives the record with
  the seven fields, also with a no-break space before it and a line feed behind it, and
  an empty body the malformed-response error.
\<close>

theorem C9_product_details_witness:
  "fst (generateProductDetails (answering (text_response example_body)) shoe_png)
     = Inr example_details
   \<and> has_details_shape example_details
   \<and> map (get_member example_details) details_required = replicate 7 (Some (JString ''...''))
   \<and> fst (generateProductDetails (answering (text_response [])) shoe_png)
     = Inl (Error ''Failed to generate details: Could not read the product details from the AI. The format might be incorrect.'')
   \<and> fst (generateProductDetails
          (answering (text_response ([CHR 0xC2, CHR 0xA0] @ example_body @ [CHR 0x0A]))) shoe_png)
     = Inr example_details"
proof -
  have readable: "file_readable shoe_png"
    by (simp add: shoe_png_def)
  have 1: "fst (generateProductDetails (answering (text_response example_body)) shoe_png)
      = Inr example_details"
    using C9_product_details [of shoe_png "answering (text_response example_body)"
        "text_response example_body", OF readable]
    by (simp add: answering_def text_response_def trim_example_body parse_example_body
        example_body_nonempty)
  have 2: "fst (generateProductDetails (answering (text_response [])) shoe_png)
      = Inl (Error ''Failed to generate details: Could not read the product details from the AI. The format might be incorrect.'')"
    using C9_product_details [of shoe_png "answering (text_response [])" "text_response []",
        OF readable]
    by (simp add: answering_def text_response_def trim_examples malformed_message_def)
  have 3: "map (get_member example_details) details_required = replicate 7 (Some (JString ''...''))"
    by (simp add: example_details_def details_required_def numeral_eq_Suc)
  have 4: "fst (generateProductDetails
        (answering (text_response ([CHR 0xC2, CHR 0xA0] @ example_body @ [CHR 0x0A]))) shoe_png)
      = Inr example_details"
    using C9_product_details [of shoe_png
        "answering (text_response ([CHR 0xC2, CHR 0xA0] @ example_body @ [CHR 0x0A]))"
        "text_response ([CHR 0xC2, CHR 0xA0] @ example_body @ [CHR 0x0A])", OF readable]
    by (simp add: answering_def text_response_def trim_padded_body parse_example_body
        example_body_nonempty del: append.simps)
  from 1 2 3 4 example_details_shape show ?thesis by blast
qed

text \<open>
  The claim as stated fails for a body that is JSON of another shape: the body \<^verbatim>\<open>{}\<close> is
  returned as the details, an object with none of the seven fields.
\<close>

theorem C9_empty_object_counterexample:
  \<open>fst (generateProductDetails (answering (text_response ''{}'')) shoe_png) = Inr (JObject [])
   \<and> \<not> has_details_shape (JObject [])
   \<and> get_member (JObject []) ''specifications'' = None\<close>
proof -
  have "trim ''{}'' = ''{}''"
    by (simp add: trim_eval)
  then have "details_or (text_response ''{}'') = Inr (JObject [])"
    by (simp add: details_or_def text_response_def parse_empty_object)
  then have "fst (generateProductDetails (answering (text_response ''{}'')) shoe_png)
      = Inr (JObject [])"
    by (simp add: generateProductDetails_run shoe_png_def answering_def)
  moreover have "\<not> has_details_shape (JObject [])"
    by (simp add: has_details_shape_def details_required_def is_string_member_def)
  ultimately show ?thesis by simp
qed

section \<open>Presets\<close>

lemma builtin_trimmed: "list_all (\<lambda>p. trim p = p) (map preset_prompt BACKGROUND_PRESETS)"
  by (simp add: BACKGROUND_PRESETS_def trim_graphic is_graphic_def)

lemma save_trimmed_present:
  assumes "trim (ps_backgroundPrompt s) \<in> set (all_prompts s)"
  shows "handleSavePreset s st = (s, st)"
  using assms by (simp add: handleSavePreset_def includes_js_def all_prompts_def Let_def)

lemma present_trimmed:
  assumes "presets_trimmed s" and "p \<in> set (all_prompts s)"
  shows "trim p = p"
  using assms builtin_trimmed
  unfolding presets_trimmed_def all_prompts_def list_all_iff by auto

lemma save_present:
  assumes "presets_trimmed s" and "ps_backgroundPrompt s \<in> set (all_prompts s)"
  shows "handleSavePreset s st = (s, st)"
  using present_trimmed [OF assms] assms(2) by (simp add: save_trimmed_present)

text \<open>A new text is appended to the user presets, trimmed, and the list is written to the storage.\<close>

lemma save_new_preset:
  assumes "trim (ps_backgroundPrompt s) \<noteq> []"
    and "trim (ps_backgroundPrompt s) \<notin> set (all_prompts s)"
  shows "handleSavePreset s st =
     (s\<lparr>ps_userPresets := ps_userPresets s @ [trim (ps_backgroundPrompt s)]\<rparr>,
      if quota_exceeded st then st
      else st\<lparr>items := (items st)(USER_PRESETS_STORAGE_KEY \<mapsto>
             JSON_stringify_strings (ps_userPresets s @ [trim (ps_backgroundPrompt s)]))\<rparr>)"
  using assms
  by (simp add: handleSavePreset_def includes_js_def all_prompts_def Let_def setItem_def)

lemma save_user_presets:
  "ps_userPresets (fst (handleSavePreset s st)) =
     (if trim (ps_backgroundPrompt s) = [] \<or> trim (ps_backgroundPrompt s) \<in> set (all_prompts s)
      then ps_userPresets s
      else ps_userPresets s @ [trim (ps_backgroundPrompt s)])"
  by (simp add: handleSavePreset_def includes_js_def all_prompts_def Let_def split: sum.splits)

lemma delete_user_presets:
  "ps_userPresets (fst (handleDeletePreset d s st)) = filter (\<lambda>p. p \<noteq> d) (ps_userPresets s)"
  by (simp add: handleDeletePreset_def Let_def split: sum.splits)

lemma save_keeps_trimmed:
  assumes "presets_trimmed s"
  shows "presets_trimmed (fst (handleSavePreset s st))"
  using assms by (simp add: presets_trimmed_def save_user_presets trim_trim)

lemma delete_keeps_trimmed:
  assumes "presets_trimmed s"
  shows "presets_trimmed (fst (handleDeletePreset d s st))"
  using assms by (simp add: presets_trimmed_def delete_user_presets list_all_iff)

lemma preset_step_trimmed:
  assumes "presets_trimmed (fst c)"
  shows "presets_trimmed (fst (preset_step c a))"
proof (cases c)
  case (Pair s st)
  with assms have "presets_trimmed s" by simp
  then show ?thesis
    unfolding Pair
    by (cases a) (simp_all add: save_keeps_trimmed delete_keeps_trimmed, simp add: presets_trimmed_def)
qed

lemma preset_step_SetPrompt:
  "preset_step c (SetPrompt t) = ((fst c)\<lparr>ps_backgroundPrompt := t\<rparr>, snd c)"
  by (cases c) simp

lemma preset_run_trimmed: "presets_trimmed (fst (preset_run st actions))"
proof -
  have "presets_trimmed (fst c) \<Longrightarrow> presets_trimmed (fst (foldl preset_step c actions))" for c
    by (induction actions arbitrary: c) (simp_all add: preset_step_trimmed)
  moreover have "presets_trimmed (fst (ps_initial, st))"
    by (simp add: presets_trimmed_def ps_initial_def)
  ultimately show ?thesis
    unfolding preset_run_def by blast
qed

text \<open>Saving is idempotent: a second save of the same text changes nothing.\<close>

lemma save_preset_twice:
  "handleSavePreset (fst (handleSavePreset s st)) (snd (handleSavePreset s st))
     = handleSavePreset s st"
proof (cases "trim (ps_backgroundPrompt s) = []
    \<or> trim (ps_backgroundPrompt s) \<in> set (all_prompts s)")
  case True
  then have "handleSavePreset s st = (s, st)"
    by (auto simp: handleSavePreset_def includes_js_def all_prompts_def Let_def)
  then show ?thesis by simp
next
  case False
  define s' where "s' = fst (handleSavePreset s st)"
  define st' where "st' = snd (handleSavePreset s st)"
  from False have "ps_backgroundPrompt s' = ps_backgroundPrompt s"
    and "trim (ps_backgroundPrompt s) \<in> set (ps_userPresets s')"
    unfolding s'_def
    by (auto simp: handleSavePreset_def includes_js_def all_prompts_def Let_def split: sum.splits)
  then have "trim (ps_backgroundPrompt s') \<in> set (all_prompts s')"
    by (simp add: all_prompts_def)
  then have "handleSavePreset s' st' = (s', st')"
    by (rule save_trimmed_present)
  then show ?thesis
    by (simp add: s'_def st'_def)
qed

text \<open>
  Claim C7, amended.  \<^verbatim>\<open>handleSavePreset\<close> compares the trimmed background text with the
  prompts of the built-in presets and with the user presets.  When the trimmed text is
  among them, nothing changes: the state of the view, with its list of user presets, and
  the local storage are as before.  A text that is itself among them changes nothing when
  the user presets are trimmed strings, and they are after every run of edits, saves and
  deletions from the initial state, since every saved preset is trimmed and the built-in
  prompts are.  A trimmed text that is not empty and not among the prompts is appended to
  the user presets; a preset that is present with white space at its ends is no obstacle
  to that.
\<close>

theorem C7_save_existing_preset:
  "(trim (ps_backgroundPrompt s) \<in> set (all_prompts s) \<longrightarrow> handleSavePreset s st = (s, st))
   \<and> (presets_trimmed s \<and> ps_backgroundPrompt s \<in> set (all_prompts s)
        \<longrightarrow> handleSavePreset s st = (s, st))
   \<and> (presets_trimmed s
        \<longrightarrow> presets_trimmed (fst (handleSavePreset s st))
            \<and> presets_trimmed (fst (handleDeletePreset d s st)))
   \<and> presets_trimmed (fst (preset_run st0 actions))
   \<and> (ps_backgroundPrompt (fst (preset_run st0 actions))
          \<in> set (all_prompts (fst (preset_run st0 actions)))
        \<longrightarrow> handleSavePreset (fst (preset_run st0 actions)) (snd (preset_run st0 actions))
            = preset_run st0 actions)
   \<and> (trim (ps_backgroundPrompt s) \<noteq> [] \<and> trim (ps_backgroundPrompt s) \<notin> set (all_prompts s)
        \<longrightarrow> ps_userPresets (fst (handleSavePreset s st))
            = ps_userPresets s @ [trim (ps_backgroundPrompt s)])"
proof -
  have 1: "trim (ps_backgroundPrompt s) \<in> set (all_prompts s) \<longrightarrow> handleSavePreset s st = (s, st)"
    using save_trimmed_present by blast
  have 2: "presets_trimmed s \<and> ps_backgroundPrompt s \<in> set (all_prompts s)
      \<longrightarrow> handleSavePreset s st = (s, st)"
    using save_present by blast
  have 3: "presets_trimmed s
      \<longrightarrow> presets_trimmed (fst (handleSavePreset s st))
          \<and> presets_trimmed (fst (handleDeletePreset d s st))"
    using save_keeps_trimmed delete_keeps_trimmed by blast
  have 4: "presets_trimmed (fst (preset_run st0 actions))"
    by (rule preset_run_trimmed)
  have 5: "ps_backgroundPrompt (fst (preset_run st0 actions))
        \<in> set (all_prompts (fst (preset_run st0 actions)))
      \<longrightarrow> handleSavePreset (fst (preset_run st0 actions)) (snd (preset_run st0 actions))
          = preset_run st0 actions"
    using save_present [OF 4] by simp
  have 6: "trim (ps_backgroundPrompt s) \<noteq> [] \<and> trim (ps_backgroundPrompt s) \<notin> set (all_prompts s)
      \<longrightarrow> ps_userPresets (fst (handleSavePreset s st))
          = ps_userPresets s @ [trim (ps_backgroundPrompt s)]"
    by (simp add: save_user_presets)
  from 1 2 3 4 5 6 show ?thesis by blast
qed

text \<open>
  The text of a built-in preset in the initial state; and a text saved with blanks around
  it, then typed without them: the second save changes nothing.
\<close>

theorem C7_save_existing_preset_witness:
  "handleSavePreset ps_initial empty_storage = (ps_initial, empty_storage)
   \<and> ps_userPresets (fst (preset_run empty_storage
         [SetPrompt ''  On my desk '', SavePreset, SetPrompt ''On my desk'']))
       = [''On my desk'']
   \<and> ps_backgroundPrompt (fst (preset_run empty_storage
         [SetPrompt ''  On my desk '', SavePreset, SetPrompt ''On my desk'']))
       = ''On my desk''
   \<and> handleSavePreset
         (fst (preset_run empty_storage
            [SetPrompt ''  On my desk '', SavePreset, SetPrompt ''On my desk'']))
         (snd (preset_run empty_storage
            [SetPrompt ''  On my desk '', SavePreset, SetPrompt ''On my desk'']))
       = preset_run empty_storage
           [SetPrompt ''  On my desk '', SavePreset, SetPrompt ''On my desk'']"
proof -
  let ?run = "preset_run empty_storage
      [SetPrompt ''  On my desk '', SavePreset, SetPrompt ''On my desk'']"
  have first: "trim (ps_backgroundPrompt ps_initial) \<in> set (all_prompts ps_initial)"
    by (simp add: ps_initial_def all_prompts_def BACKGROUND_PRESETS_def trim_graphic is_graphic_def)
  have new: "trim ''  On my desk '' \<notin> set (all_prompts (ps_initial\<lparr>ps_backgroundPrompt := ''  On my desk ''\<rparr>))"
    by (simp add: trim_examples all_prompts_def ps_initial_def BACKGROUND_PRESETS_def)
  have saved: "fst (handleSavePreset (ps_initial\<lparr>ps_backgroundPrompt := ''  On my desk ''\<rparr>)
        empty_storage)
      = ps_initial\<lparr>ps_backgroundPrompt := ''  On my desk '', ps_userPresets := [''On my desk'']\<rparr>"
    using new
    by (simp add: save_new_preset trim_examples ps_initial_def)
  have run: "fst ?run
      = ps_initial\<lparr>ps_backgroundPrompt := ''On my desk'', ps_userPresets := [''On my desk'']\<rparr>"
    using saved
    by (simp add: preset_run_def preset_step_SetPrompt ps_initial_def)
  have present: "ps_backgroundPrompt (fst ?run) \<in> set (all_prompts (fst ?run))"
    by (simp add: run all_prompts_def)
  from C7_save_existing_preset [of ps_initial empty_storage "[]" empty_storage
      "[SetPrompt ''  On my desk '', SavePreset, SetPrompt ''On my desk'']"] first present
  have "handleSavePreset ps_initial empty_storage = (ps_initial, empty_storage)"
    and "handleSavePreset (fst ?run) (snd ?run) = ?run"
    by blast+
  then show ?thesis
    by (simp add: run)
qed

text \<open>
  The claim as stated fails where a user preset has white space at its ends.  The storage
  holds the list with the preset \<open>x\<close> behind a blank, which the view loads as it is when it
  is mounted; the text of that preset is typed: it is present in the list, and saving it
  appends \<open>x\<close> to the user presets and writes the longer list to the storage.
\<close>

theorem C7_untrimmed_preset_counterexample:
  \<open>ps_loadUserPresets blank_storage ps_initial = Some (ps_initial\<lparr>ps_userPresets := ['' x'']\<rparr>)
   \<and> '' x'' \<in> set (all_prompts (ps_initial\<lparr>ps_userPresets := ['' x''], ps_backgroundPrompt := '' x''\<rparr>))
   \<and> ps_userPresets
         (fst (handleSavePreset
            (ps_initial\<lparr>ps_userPresets := ['' x''], ps_backgroundPrompt := '' x''\<rparr>) blank_storage))
       = ['' x'', ''x'']
   \<and> items
         (snd (handleSavePreset
            (ps_initial\<lparr>ps_userPresets := ['' x''], ps_backgroundPrompt := '' x''\<rparr>) blank_storage))
         USER_PRESETS_STORAGE_KEY
       = Some ''[" x","x"]''\<close>
proof -
  let ?s = "ps_initial\<lparr>ps_userPresets := ['' x''], ps_backgroundPrompt := '' x''\<rparr>"
  have parse: \<open>JSON_parse ''[" x"]'' = Some (JArray [JString '' x''])\<close>
    by (simp add: json_eval)
  have 1: "ps_loadUserPresets blank_storage ps_initial
      = Some (ps_initial\<lparr>ps_userPresets := ['' x'']\<rparr>)"
    by (simp add: ps_loadUserPresets_def getItem_def blank_storage_def parse)
  have 2: "'' x'' \<in> set (all_prompts ?s)"
    by (simp add: all_prompts_def)
  have new: "trim (ps_backgroundPrompt ?s) \<noteq> []"
    "trim (ps_backgroundPrompt ?s) \<notin> set (all_prompts ?s)"
    by (simp_all add: trim_examples all_prompts_def BACKGROUND_PRESETS_def)
  have written: \<open>JSON_stringify_strings ['' x'', ''x''] = ''[" x","x"]''\<close>
    by (simp add: JSON_stringify_strings_def quote_string_def escape_char_def)
  have 3: "handleSavePreset ?s blank_storage =
      (?s\<lparr>ps_userPresets := ['' x'', ''x'']\<rparr>,
       blank_storage\<lparr>items := (items blank_storage)(USER_PRESETS_STORAGE_KEY \<mapsto>
           JSON_stringify_strings ['' x'', ''x''])\<rparr>)"
    using save_new_preset [OF new, of blank_storage]
    by (simp add: trim_examples blank_storage_def)
  show ?thesis
    unfolding 3 using 1 2 by (simp add: written)
qed

section \<open>The source images of the style copier\<close>

lemma handleFiles_loop_eq:
  "handleFiles_loop n maxFiles files addedFiles =
     addedFiles @ take (maxFiles - (n + length addedFiles)) (filter is_image_file files)"
proof (induction files arbitrary: addedFiles)
  case Nil
  then show ?case by simp
next
  case (Cons f files)
  show ?case
  proof (cases "n + length addedFiles \<ge> maxFiles")
    case True
    then show ?thesis by simp
  next
    case False
    then obtain k where k: "maxFiles - (n + length addedFiles) = Suc k"
      by (cases "maxFiles - (n + length addedFiles)") auto
    then have k': "maxFiles - Suc (n + length addedFiles) = k"
      by simp
    from False k k' show ?thesis
      by (simp add: Cons.IH is_image_file_def)
  qed
qed

lemma handleFiles_eq:
  "(case handleFiles images maxFiles (Some files) of None \<Rightarrow> [] | Some added \<Rightarrow> added)
     = take (maxFiles - length images) (filter is_image_file files)"
  by (simp add: handleFiles_def handleFiles_loop_eq Let_def)

lemma dropSourceFiles_images:
  assumes "length (sc_sourceImages s) \<le> 5"
  shows "sc_sourceImages (dropSourceFiles u files s) =
     sc_sourceImages s
       @ map (\<lambda>f. \<lparr>image_file = f, previewUrl = u f\<rparr>)
           (take (5 - length (sc_sourceImages s)) (filter is_image_file files))"
proof (cases "handleFiles (sc_sourceImages s) 5 (Some files)")
  case None
  with handleFiles_eq [of "sc_sourceImages s" 5 files]
  have "take (5 - length (sc_sourceImages s)) (filter is_image_file files) = []"
    by simp
  with None show ?thesis
    by (simp add: dropSourceFiles_def)
next
  case (Some added)
  with handleFiles_eq [of "sc_sourceImages s" 5 files]
  have "added = take (5 - length (sc_sourceImages s)) (filter is_image_file files)"
    by simp
  with Some assms show ?thesis
    by (simp add: dropSourceFiles_def handleSourceImagesAdd_def Let_def)
qed

lemma remove_subset:
  "set (map snd (filter (\<lambda>ix. fst ix \<noteq> index) (enumerate 0 xs))) \<subseteq> set xs"
  by (auto simp: in_set_enumerate_eq)

lemma remove_length:
  "length (map snd (filter (\<lambda>ix. fst ix \<noteq> index) (enumerate 0 xs))) \<le> length xs"
  using length_filter_le [of "\<lambda>ix. fst ix \<noteq> index" "enumerate 0 xs"] by simp

lemma source_step_ok:
  assumes "source_images_ok s"
  shows "source_images_ok (source_step u s a)"
proof (cases a)
  case (Drop files)
  from assms have len: "length (sc_sourceImages s) \<le> 5"
    by (simp add: source_images_ok_def)
  have "list_all (\<lambda>img. is_image_file (image_file img))
      (map (\<lambda>f. \<lparr>image_file = f, previewUrl = u f\<rparr>)
         (take (5 - length (sc_sourceImages s)) (filter is_image_file files)))"
    by (auto simp: list_all_iff dest: in_set_takeD)
  with assms Drop show ?thesis
    by (auto simp: source_images_ok_def dropSourceFiles_images [OF len])
next
  case (Remove index)
  define xs where "xs = map snd (filter (\<lambda>ix. fst ix \<noteq> index) (enumerate 0 (sc_sourceImages s)))"
  have sub: "set xs \<subseteq> set (sc_sourceImages s)"
    unfolding xs_def by (rule remove_subset)
  have len: "length xs \<le> length (sc_sourceImages s)"
    unfolding xs_def by (rule remove_length)
  have "sc_sourceImages (source_step u s a) = xs"
    using Remove by (simp add: handleSourceImageRemove_def xs_def)
  moreover have "length xs \<le> 5"
    using len assms by (simp add: source_images_ok_def)
  moreover have "list_all (\<lambda>img. is_image_file (image_file img)) xs"
    using sub assms unfolding source_images_ok_def list_all_iff by blast
  ultimately show ?thesis
    by (simp add: source_images_ok_def)
qed

lemma source_run_ok: "source_images_ok (source_run u actions)"
proof -
  have "source_images_ok s \<Longrightarrow> source_images_ok (foldl (source_step u) s actions)" for s
    by (induction actions arbitrary: s) (simp_all add: source_step_ok)
  moreover have "source_images_ok sc_initial"
    by (simp add: source_images_ok_def sc_initial_def)
  ultimately show ?thesis
    by (simp add: source_run_def)
qed

text \<open>
  Claim C10.  After every sequence of drops on the dropzone of the source images (and of
  removals), the list of source images holds at most five images, and the type of each
  of them starts with \<^verbatim>\<open>image/\<close>.  A drop appends the first image files of the dropped
  list, as many as still fit, and passes over the other files without a message; for any
  \<^verbatim>\<open>maxFiles\<close> the dropzone accepts that many files less the images it already shows.
  With no source image the generate handler calls no operation, so every call of the
  service carries one to five source images.
\<close>

theorem C10_source_images_bounded:
  "length (sc_sourceImages (source_run u actions)) \<le> 5
   \<and> list_all (\<lambda>img. startsWith (file_type (image_file img)) ''image/'')
         (sc_sourceImages (source_run u actions))
   \<and> sc_sourceImages (dropSourceFiles u files (source_run u actions)) =
       sc_sourceImages (source_run u actions)
         @ map (\<lambda>f. \<lparr>image_file = f, previewUrl = u f\<rparr>)
             (take (5 - length (sc_sourceImages (source_run u actions)))
                (filter (\<lambda>f. startsWith (file_type f) ''image/'') files))
   \<and> handleFiles_loop (length images) maxFiles files [] =
       take (maxFiles - length images) (filter (\<lambda>f. startsWith (file_type f) ''image/'') files)
   \<and> snd (handleInitialGenerate ai (s\<lparr>sc_sourceImages := []\<rparr>)) = []"
proof -
  have ok: "source_images_ok (source_run u actions)"
    by (rule source_run_ok)
  then have len: "length (sc_sourceImages (source_run u actions)) \<le> 5"
    by (simp add: source_images_ok_def)
  have img: "is_image_file = (\<lambda>f. startsWith (file_type f) ''image/'')"
    by (rule ext) (simp add: is_image_file_def)
  have 2: "list_all (\<lambda>img. startsWith (file_type (image_file img)) ''image/'')
      (sc_sourceImages (source_run u actions))"
    using ok by (simp add: source_images_ok_def is_image_file_def)
  have 3: "sc_sourceImages (dropSourceFiles u files (source_run u actions)) =
       sc_sourceImages (source_run u actions)
         @ map (\<lambda>f. \<lparr>image_file = f, previewUrl = u f\<rparr>)
             (take (5 - length (sc_sourceImages (source_run u actions)))
                (filter (\<lambda>f. startsWith (file_type f) ''image/'') files))"
    using dropSourceFiles_images [OF len, of u files] by (simp only: img)
  have 4: "handleFiles_loop (length images) maxFiles files [] =
       take (maxFiles - length images) (filter (\<lambda>f. startsWith (file_type f) ''image/'') files)"
    using handleFiles_loop_eq [of "length images" maxFiles files "[]"] by (simp add: img)
  have 5: "snd (handleInitialGenerate ai (s\<lparr>sc_sourceImages := []\<rparr>)) = []"
    by (simp add: handleInitialGenerate_def split: option.splits)
  from len 2 3 4 5 show ?thesis by blast
qed

text \<open>
  Three files with a text file among them, then four more images: the text file and the
  last image are passed over.
\<close>

theorem C10_source_images_bounded_witness:
  "map image_file
     (sc_sourceImages (source_run file_name
        [Drop [shoe_png, notes_txt, style_jpg], Drop [style_jpg, shoe_png, shoe_png, style_jpg]]))
     = [shoe_png, style_jpg, style_jpg, shoe_png, shoe_png]
   \<and> length (sc_sourceImages (source_run file_name
        [Drop [shoe_png, notes_txt, style_jpg], Drop [style_jpg, shoe_png, shoe_png, style_jpg]]))
       \<le> 5"
proof -
  have types: "startsWith (file_type shoe_png) ''image/''" "startsWith (file_type style_jpg) ''image/''"
    "\<not> startsWith (file_type notes_txt) ''image/''"
    by (simp_all add: shoe_png_def style_jpg_def notes_txt_def)
  have first: "source_run file_name [] = sc_initial"
    by (simp add: source_run_def)
  have step: "source_run file_name (xs @ [Drop fs]) = dropSourceFiles file_name fs (source_run file_name xs)"
    for xs fs
    by (simp add: source_run_def)
  have 1: "sc_sourceImages (source_run file_name [Drop [shoe_png, notes_txt, style_jpg]])
      = [\<lparr>image_file = shoe_png, previewUrl = file_name shoe_png\<rparr>,
         \<lparr>image_file = style_jpg, previewUrl = file_name style_jpg\<rparr>]"
    using C10_source_images_bounded [of file_name "[]" "[shoe_png, notes_txt, style_jpg]",
        THEN conjunct2, THEN conjunct2, THEN conjunct1]
      step [of "[]" "[shoe_png, notes_txt, style_jpg]"]
    by (simp add: first sc_initial_def types)
  have 2: "sc_sourceImages (source_run file_name
        [Drop [shoe_png, notes_txt, style_jpg], Drop [style_jpg, shoe_png, shoe_png, style_jpg]])
      = [\<lparr>image_file = shoe_png, previewUrl = file_name shoe_png\<rparr>,
         \<lparr>image_file = style_jpg, previewUrl = file_name style_jpg\<rparr>,
         \<lparr>image_file = style_jpg, previewUrl = file_name style_jpg\<rparr>,
         \<lparr>image_file = shoe_png, previewUrl = file_name shoe_png\<rparr>,
         \<lparr>image_file = shoe_png, previewUrl = file_name shoe_png\<rparr>]"
    using C10_source_images_bounded [of file_name "[Drop [shoe_png, notes_txt, style_jpg]]"
        "[style_jpg, shoe_png, shoe_png, style_jpg]",
        THEN conjunct2, THEN conjunct2, THEN conjunct1]
      step [of "[Drop [shoe_png, notes_txt, style_jpg]]" "[style_jpg, shoe_png, shoe_png, style_jpg]"]
    by (simp add: 1 types)
  show ?thesis
    by (simp add: 2)
qed

section \<open>The views after a response without an image\<close>










text \<open>
  The views of the examples are states of the views: each is what its handler leaves when
  the service answers with the image \<^verbatim>\<open>QUJD\<close>.
\<close>

lemma example_views_reached:
  "fst (ps_handleSubmit (answering (response_with [image_part])) studio_ready) = studio_with_result"
  "fst (ie_handleSubmit (answering (response_with [image_part])) editor_ready) = editor_with_result"
  "fst (handleInitialGenerate (answering (response_with [image_part])) copier_ready)
     = copier_with_result"
  "fst (handleInitialGenerate (answering (response_with [image_part]))
          (copier_ready\<lparr>sc_copyBackgroundStyleToggle := True\<rparr>)) = copier_in_preview"
proof -
  have img: "image_or pre m (response_with [image_part]) = Inr (Some ''QUJD'')" for pre m
    by (simp add: image_or_def parts_missing_def first_part_def response_parts_def
        response_with_def image_part_def)
  have ans: "answer_image (answering (response_with [image_part])) req m = Inr (Some ''QUJD'')"
    for req m
    by (simp add: answer_image_def answering_def img)
  show "fst (ps_handleSubmit (answering (response_with [image_part])) studio_ready)
      = studio_with_result"
    by (simp add: ps_handleSubmit_def studio_ready_def studio_with_result_def ps_initial_def
        shoe_image_def shoe_png_def compositeProductImage_run ans Let_def)
  show "fst (ie_handleSubmit (answering (response_with [image_part])) editor_ready)
      = editor_with_result"
    by (simp add: ie_handleSubmit_def editor_ready_def editor_with_result_def
        shoe_image_def shoe_png_def editImageWithPrompt_run ans Let_def)
  show "fst (handleInitialGenerate (answering (response_with [image_part])) copier_ready)
      = copier_with_result"
    by (simp add: handleInitialGenerate_def copier_ready_def copier_with_result_def
        sc_initial_def shoe_image_def shoe_png_def style_jpg_def copyProductStyle_selected
        io_catch_rethrow copyProductStyle_try_run ans Let_def)
  show "fst (handleInitialGenerate (answering (response_with [image_part]))
          (copier_ready\<lparr>sc_copyBackgroundStyleToggle := True\<rparr>)) = copier_in_preview"
    by (simp add: handleInitialGenerate_def copier_ready_def copier_in_preview_def
        sc_initial_def shoe_image_def shoe_png_def style_jpg_def generateStyledBackground_def
        io_catch_rethrow generateStyledBackground_try_run ans Let_def)
qed



section \<open>Encoding a file and decoding it again\<close>

lemma b64_alphabet_length: "length b64_alphabet = 64"
  by (simp add: b64_alphabet_def)

lemma b64_alphabet_distinct: "distinct b64_alphabet"
  by (simp add: b64_alphabet_def)

lemma b64_alphabet_plain:
  "CHR ''='' \<notin> set b64_alphabet" "CHR '','' \<notin> set b64_alphabet"
  "\<forall>c \<in> set b64_alphabet. \<not> is_ascii_whitespace c"
  by (simp_all add: b64_alphabet_def is_ascii_whitespace_def)

lemma b64_char_in: "b64_char n \<in> set b64_alphabet"
  by (simp add: b64_char_def b64_alphabet_length)

lemma b64_index_char:
  assumes "n < 64"
  shows "b64_index (b64_char n) = Some n"
proof -
  have "takeWhile (\<lambda>d. d \<noteq> b64_alphabet ! n) b64_alphabet = take n b64_alphabet"
  proof (rule takeWhile_eq_take_P_nth)
    fix i assume "i < n" "i < length b64_alphabet"
    with assms show "b64_alphabet ! i \<noteq> b64_alphabet ! n"
      using nth_eq_iff_index_eq [OF b64_alphabet_distinct, of i n]
      by (simp add: b64_alphabet_length)
  next
    show "\<not> b64_alphabet ! n \<noteq> b64_alphabet ! n" by simp
  qed
  then have "length (takeWhile (\<lambda>d. d \<noteq> b64_alphabet ! n) b64_alphabet) = n"
    using assms by (simp add: b64_alphabet_length)
  moreover have "b64_char n = b64_alphabet ! n"
    using assms by (simp add: b64_char_def)
  ultimately show ?thesis
    using b64_char_in [of n] by (simp add: b64_index_def)
qed

lemma b64_char_mod: "b64_char (n mod 64) = b64_char n"
  by (simp add: b64_char_def)

lemma encode_sextets: "b64_encode bs = map b64_char (sextets bs) @ padding bs"
  by (induction bs rule: b64_encode.induct) (simp_all add: Let_def b64_char_mod)

lemma sextets_bound: "\<forall>x \<in> set (sextets bs). x < 64"
  by (induction bs rule: sextets.induct) (simp_all add: Let_def)

lemma sextets_length: "length (sextets bs) mod 4 \<noteq> 1"
  by (induction bs rule: sextets.induct) (simp_all add: Let_def)

lemma encode_length: "length (b64_encode bs) mod 4 = 0"
  by (induction bs rule: b64_encode.induct) (simp_all add: Let_def)

lemma padding_cases: "padding bs = [] \<or> padding bs = ''='' \<or> padding bs = ''==''"
  by (induction bs rule: padding.induct) simp_all

lemma padding_sextets: "padding bs \<noteq> [] \<Longrightarrow> sextets bs \<noteq> []"
  by (induction bs rule: padding.induct) (simp_all add: Let_def)

lemma byte_bound: "unat (a :: 8 word) < 256"
  using unsigned_less [of a, where 'a = nat] by simp

lemma regroup:
  assumes "n < (16777216::nat)"
  shows "n div 262144 mod 64 * 262144 + n div 4096 mod 64 * 4096 + n div 64 mod 64 * 64
           + n mod 64 = n"
proof -
  define n1 where "n1 = n div 64"
  define n2 where "n2 = n1 div 64"
  define n3 where "n3 = n2 div 64"
  have e1: "n1 * 64 + n mod 64 = n"
    by (simp add: n1_def)
  have e2: "n2 * 64 + n1 mod 64 = n1"
    by (simp add: n2_def)
  have e3: "n3 * 64 + n2 mod 64 = n2"
    by (simp add: n3_def)
  have d2: "n div 4096 = n2"
    by (simp add: n1_def n2_def div_mult2_eq)
  have d3: "n div 262144 = n3"
    by (simp add: n1_def n2_def n3_def div_mult2_eq)
  have "n3 < 64"
    using assms unfolding d3 [symmetric] by simp
  then have m3: "n3 mod 64 = n3"
    by simp
  have "n3 * 262144 + n2 mod 64 * 4096 + n1 mod 64 * 64 + n mod 64 = n"
    using e1 e2 e3 by linarith
  then show ?thesis
    by (simp add: d2 d3 m3 n1_def [symmetric])
qed

lemma bytes3:
  assumes "a < 256" "b < 256" "c < (256::nat)"
  shows "(a * 65536 + b * 256 + c) div 65536 = a"
    and "(a * 65536 + b * 256 + c) div 256 mod 256 = b"
    and "(a * 65536 + b * 256 + c) mod 256 = c"
proof -
  show "(a * 65536 + b * 256 + c) div 65536 = a"
    using assms by (intro div_nat_eqI) simp_all
  have "(a * 65536 + b * 256 + c) div 256 = a * 256 + b"
    using assms by (intro div_nat_eqI) simp_all
  then show "(a * 65536 + b * 256 + c) div 256 mod 256 = b"
    using assms by simp
  have "(a * 65536 + b * 256 + c) = (a * 256 + b) * 256 + c"
    by simp
  then show "(a * 65536 + b * 256 + c) mod 256 = c"
    using assms by (simp only: mod_mult_self3) simp
qed

lemma low_bits:
  "(a * 65536) mod 64 = (0::nat)" "(a * 65536) div 64 mod 64 = (0::nat)"
  "(a * 65536 + b * 256) mod 64 = (0::nat)"
proof -
  have "(a * 65536) = (a * 1024) * 64" by simp
  then show "(a * 65536) mod 64 = (0::nat)" by (simp only: mod_mult_self2_is_0)
  have "(a * 65536) div 64 = (a * 16) * 64"
    by (intro div_nat_eqI) simp_all
  then show "(a * 65536) div 64 mod 64 = (0::nat)" by (simp only: mod_mult_self2_is_0)
  have "(a * 65536 + b * 256) = (a * 1024 + b * 4) * 64" by simp
  then show "(a * 65536 + b * 256) mod 64 = (0::nat)" by (simp only: mod_mult_self2_is_0)
qed

lemma decode_sextets: "b64_decode_groups (sextets bs) = map unat bs"
proof (induction bs rule: sextets.induct)
  case 1
  then show ?case by simp
next
  case (2 a)
  define n where "n = unat a * 65536"
  have n: "n < 16777216"
    using byte_bound [of a] by (simp add: n_def)
  have low: "n div 64 mod 64 = 0" "n mod 64 = 0"
    by (simp_all add: n_def low_bits)
  have eq: "n div 262144 mod 64 * 262144 + n div 4096 mod 64 * 4096 = n"
    using regroup [OF n] by (simp only: low)
  have hi: "n div 65536 = unat a"
    by (simp add: n_def)
  have "sextets [a] = [n div 262144 mod 64, n div 4096 mod 64]"
    by (simp only: sextets.simps Let_def n_def)
  moreover have "b64_decode_groups [n div 262144 mod 64, n div 4096 mod 64] = [unat a]"
    by (simp only: b64_decode_groups.simps Let_def eq hi)
  ultimately show ?case
    by (simp only: list.map)
next
  case (3 a b)
  define n where "n = unat a * 65536 + unat b * 256"
  have n: "n < 16777216"
    using byte_bound [of a] byte_bound [of b] by (simp add: n_def)
  have low: "n mod 64 = 0"
    by (simp add: n_def low_bits)
  have eq: "n div 262144 mod 64 * 262144 + n div 4096 mod 64 * 4096 + n div 64 mod 64 * 64 = n"
    using regroup [OF n] by (simp only: low)
  have hi: "n div 65536 = unat a" "n div 256 mod 256 = unat b"
    using bytes3 [of "unat a" "unat b" 0] byte_bound [of a] byte_bound [of b]
    by (simp_all add: n_def)
  have "sextets [a, b] = [n div 262144 mod 64, n div 4096 mod 64, n div 64 mod 64]"
    by (simp only: sextets.simps Let_def n_def)
  moreover have "b64_decode_groups [n div 262144 mod 64, n div 4096 mod 64, n div 64 mod 64]
      = [unat a, unat b]"
    by (simp only: b64_decode_groups.simps Let_def eq hi)
  ultimately show ?case
    by (simp only: list.map)
next
  case (4 a b c rest)
  define n where "n = unat a * 65536 + unat b * 256 + unat c"
  have n: "n < 16777216"
    using byte_bound [of a] byte_bound [of b] byte_bound [of c] by (simp add: n_def)
  have eq: "n div 262144 mod 64 * 262144 + n div 4096 mod 64 * 4096 + n div 64 mod 64 * 64
      + n mod 64 = n"
    by (rule regroup [OF n])
  have hi: "n div 65536 = unat a" "n div 256 mod 256 = unat b" "n mod 256 = unat c"
    using bytes3 [of "unat a" "unat b" "unat c"] byte_bound [of a] byte_bound [of b]
      byte_bound [of c]
    by (simp_all add: n_def)
  have "sextets (a # b # c # rest) =
      n div 262144 mod 64 # n div 4096 mod 64 # n div 64 mod 64 # n mod 64 # sextets rest"
    by (simp only: sextets.simps Let_def n_def append.simps)
  moreover have "b64_decode_groups
      (n div 262144 mod 64 # n div 4096 mod 64 # n div 64 mod 64 # n mod 64 # sextets rest)
      = [unat a, unat b, unat c] @ b64_decode_groups (sextets rest)"
    by (simp only: b64_decode_groups.simps Let_def eq hi)
  ultimately show ?case
    using 4 by (simp only: list.map append.simps)
qed

lemma strip_padding_pad:
  assumes "pad = [] \<or> pad = ''='' \<or> pad = ''==''"
    and "length (xs @ pad) mod 4 = 0"
    and "CHR ''='' \<notin> set xs"
    and "pad \<noteq> [] \<Longrightarrow> xs \<noteq> []"
  shows "strip_padding (xs @ pad) = xs"
proof -
  consider "pad = []" | "pad = ''=''" | "pad = ''==''"
    using assms(1) by blast
  then show ?thesis
  proof cases
    case 1
    show ?thesis
    proof (cases "xs = []")
      case True
      with 1 show ?thesis by (simp add: strip_padding_def)
    next
      case False
      then have "last xs \<in> set xs" by simp
      with assms(3) have "last xs \<noteq> CHR ''=''" by metis
      with 1 show ?thesis by (simp add: strip_padding_def)
    qed
  next
    case 2
    with assms(4) have ne: "xs \<noteq> []" by simp
    then have "last xs \<in> set xs" by simp
    with assms(3) have "last xs \<noteq> CHR ''=''" by metis
    with 2 ne assms(2) show ?thesis
      by (simp add: strip_padding_def butlast_append)
  next
    case 3
    with assms(2) show ?thesis
      by (simp add: strip_padding_def butlast_append)
  qed
qed

lemma strip_padding_encode:
  "strip_padding (b64_encode bs) = map b64_char (sextets bs)"
proof -
  have "CHR ''='' \<notin> set (map b64_char (sextets bs))"
    using b64_char_in b64_alphabet_plain(1) by auto
  moreover have "length (map b64_char (sextets bs) @ padding bs) mod 4 = 0"
    using encode_length [of bs] by (simp add: encode_sextets)
  moreover have "padding bs \<noteq> [] \<Longrightarrow> map b64_char (sextets bs) \<noteq> []"
    using padding_sextets [of bs] by simp
  ultimately show ?thesis
    unfolding encode_sextets
    by (intro strip_padding_pad padding_cases)
qed

lemma encode_no_whitespace:
  "filter (\<lambda>c. \<not> is_ascii_whitespace c) (b64_encode bs) = b64_encode bs"
proof -
  have "\<not> is_ascii_whitespace c" if "c \<in> set (b64_encode bs)" for c
  proof -
    from that have "c \<in> set b64_alphabet \<or> c = CHR ''=''"
      using padding_cases [of bs] b64_char_in by (auto simp: encode_sextets)
    then show ?thesis
      using b64_alphabet_plain(3) by (auto simp: is_ascii_whitespace_def)
  qed
  then show ?thesis by (simp add: filter_id_conv)
qed

lemma encode_no_comma: "CHR '','' \<notin> set (b64_encode bs)"
  using padding_cases [of bs] b64_char_in b64_alphabet_plain(2)
  by (auto simp: encode_sextets)

lemma atob_encode: "atob (b64_encode bs) = Inr (map unat bs)"
proof -
  let ?t = "map b64_char (sextets bs)"
  have idx: "map (\<lambda>c. the (b64_index c)) ?t = sextets bs"
    using sextets_bound [of bs] by (simp add: map_idI b64_index_char)
  have valid: "\<not> (\<exists>c \<in> set ?t. b64_index c = None)"
    using sextets_bound [of bs] by (auto simp: b64_index_char)
  have len: "length ?t mod 4 \<noteq> 1"
    using sextets_length [of bs] by simp
  show ?thesis
    unfolding atob_def encode_no_whitespace strip_padding_encode Let_def
    using valid len by (simp only: idx decode_sextets) simp
qed

lemma base64ToFile_encode:
  "base64ToFile (b64_encode bs) filename mt =
     Inr \<lparr>file_name = filename, file_type = mt, file_bytes = bs, file_readable = True\<rparr>"
proof -
  have bytes_again: "map (\<lambda>n. (of_nat n :: 8 word)) (map unat bs) = bs"
    by (simp add: map_idI)
  have copy: "map (\<lambda>i. map unat bs ! i) [0 ..< length (map unat bs)] = map unat bs"
    by (rule map_nth)
  show ?thesis
    unfolding base64ToFile_def atob_encode Let_def
    by (simp only: sum.case copy bytes_again)
qed

lemma fileToBase64_payload:
  assumes "file_readable f" and "CHR '','' \<notin> set (file_type f)"
  shows "fst (fileToBase64 f) = Inr (b64_encode (file_bytes f))"
proof -
  let ?pre = "''data:'' @ (if file_type f = [] then ''application/octet-stream'' else file_type f)
      @ '';base64''"
  have nc: "CHR '','' \<notin> set ?pre"
    using assms(2) by simp
  have "split_on CHR '','' (?pre @ CHR '','' # b64_encode (file_bytes f))
      = ?pre # split_on CHR '','' (b64_encode (file_bytes f))"
    by (rule split_on_append [OF nc])
  then have "split_on CHR '','' (?pre @ CHR '','' # b64_encode (file_bytes f))
      = [?pre, b64_encode (file_bytes f)]"
    by (simp only: split_on_no_sep [OF encode_no_comma])
  moreover have "readAsDataURL f = ?pre @ CHR '','' # b64_encode (file_bytes f)"
    by (simp add: readAsDataURL_def)
  ultimately show ?thesis
    using assms(1) by (simp add: fileToBase64_readable)
qed

text \<open>
  For a file that is read and whose media type holds no comma, decoding the encoded file
  gives a file with the same bytes.
\<close>

lemma base64_roundtrip:
  assumes "file_readable f" and "CHR '','' \<notin> set (file_type f)"
  shows "\<exists>payload g.
           fst (fileToBase64 f) = Inr payload
         \<and> base64ToFile payload filename mt = Inr g
         \<and> file_bytes g = file_bytes f"
  using fileToBase64_payload [OF assms] base64ToFile_encode [of "file_bytes f" filename mt]
  by simp

text \<open>
  Claim C5.  The round trip holds for every file that is read and whose media type holds
  no comma (lemma \<open>base64_roundtrip\<close>).  It fails for a media type with a comma:
  \<^verbatim>\<open>result.split(',')[1]\<close> is then a piece of the prefix of the data URL, not the
  payload, against the comment of the code (remove the \<^verbatim>\<open>data:mime/type;base64,\<close> part),
  and decoding it throws.  The file \<open>comma_file\<close> has the one byte 120, payload
  \<^verbatim>\<open>eA==\<close>.
\<close>

theorem C5_comma_in_media_type:
  "readAsDataURL comma_file = ''data:image/png,image/png;base64,eA==''
   \<and> fst (fileToBase64 comma_file) = Inr ''image/png;base64''
   \<and> base64ToFile ''image/png;base64'' ''x.png'' ''image/png''
       = Inl (Error ''InvalidCharacterError'')"
proof -
  have url: "readAsDataURL comma_file = ''data:image/png,image/png;base64,eA==''"
    by (simp add: readAsDataURL_def comma_file_def b64_char_def b64_alphabet_def Let_def)
  have "file_readable comma_file"
    by (simp add: comma_file_def)
  then have "fst (fileToBase64 comma_file) = Inr ''image/png;base64''"
    by (simp add: fileToBase64_readable url)
  moreover have "atob ''image/png;base64'' = Inl (Error ''InvalidCharacterError'')"
    by (simp add: atob_def strip_padding_def is_ascii_whitespace_def b64_index_def
        b64_alphabet_def Let_def)
  then have "base64ToFile ''image/png;base64'' ''x.png'' ''image/png''
      = Inl (Error ''InvalidCharacterError'')"
    by (simp add: base64ToFile_def)
  ultimately show ?thesis
    using url by simp
qed

text \<open>The same byte in a file of type \<^verbatim>\<open>image/png\<close> comes back.\<close>

lemma roundtrip_example:
  "\<exists>payload g.
      fst (fileToBase64 (comma_file\<lparr>file_type := ''image/png''\<rparr>)) = Inr payload
    \<and> base64ToFile payload ''x.png'' ''image/png'' = Inr g
    \<and> file_bytes g = [120]"
  using base64_roundtrip [of "comma_file\<lparr>file_type := ''image/png''\<rparr>" "''x.png''" "''image/png''"]
  by (simp add: comma_file_def)

end
